theory Spec2Isabelle
  imports Complex_Main "HOL-Library.Word" "HOL-Library.Multiset"
begin

section \<open>Python values used by the service\<close>

type_synonym byte = "8 word"
type_synonym bytes = "byte list"

text \<open>
  \<open>str.lower\<close> and \<open>str.upper\<close>, on the ASCII letters (the file names and the image
  format names the service handles are ASCII; other characters are left as they are).
\<close>

definition lower_char :: "char \<Rightarrow> char" where
  "lower_char c =
     (case map_of (zip ''ABCDEFGHIJKLMNOPQRSTUVWXYZ'' ''abcdefghijklmnopqrstuvwxyz'') c of
        None \<Rightarrow> c | Some l \<Rightarrow> l)"

definition upper_char :: "char \<Rightarrow> char" where
  "upper_char c =
     (case map_of (zip ''abcdefghijklmnopqrstuvwxyz'' ''ABCDEFGHIJKLMNOPQRSTUVWXYZ'') c of
        None \<Rightarrow> c | Some u \<Rightarrow> u)"

definition lower :: "string \<Rightarrow> string" where
  "lower s = map lower_char s"

definition upper :: "string \<Rightarrow> string" where
  "upper s = map upper_char s"

definition endswith :: "string \<Rightarrow> string \<Rightarrow> bool" where
  "endswith s suffix =
     (length suffix \<le> length s \<and> drop (length s - length suffix) s = suffix)"

text \<open>\<open>str(n)\<close> of a Python int, as an f-string formats it.\<close>

definition digit_char :: "nat \<Rightarrow> char" where
  "digit_char d = ''0123456789'' ! d"

fun str_nat :: "nat \<Rightarrow> string" where
  "str_nat n =
     (if n < 10 then [digit_char n] else str_nat (n div 10) @ [digit_char (n mod 10)])"

declare str_nat.simps [simp del]

definition str_int :: "int \<Rightarrow> string" where
  "str_int i = (if i < 0 then CHR ''-'' # str_nat (nat (- i)) else str_nat (nat i))"

text \<open>\<open>base64.b64encode(data).decode("utf-8")\<close>: the standard alphabet, padded with \<open>=\<close>.\<close>

definition b64_char :: "nat \<Rightarrow> char" where
  "b64_char n =
     ''ABCDEFGHIJKLMNOPQRSTUVWXYZabcdefghijklmnopqrstuvwxyz0123456789+/'' ! n"

fun b64encode :: "bytes \<Rightarrow> string" where
  "b64encode [] = []"
| "b64encode [a] =
     (let n = unat a
      in [b64_char (n div 4), b64_char (n mod 4 * 16), CHR ''='', CHR ''=''])"
| "b64encode [a, b] =
     (let n = unat a * 256 + unat b
      in [b64_char (n div 1024), b64_char (n div 16 mod 64), b64_char (n mod 16 * 4),
          CHR ''=''])"
| "b64encode (a # b # c # rest) =
     (let n = unat a * 65536 + unat b * 256 + unat c
      in [b64_char (n div 262144), b64_char (n div 4096 mod 64), b64_char (n div 64 mod 64),
          b64_char (n mod 64)] @ b64encode rest)"

text \<open>
  Decoded JSON (\<open>response.json()\<close>) and the request payload: Python dicts keep their
  insertion order, so a dict is an association list.
\<close>

datatype json =
    JNull
  | JBool bool
  | JInt int
  | JFloat real
  | JStr string
  | JList "json list"
  | JDict "(string \<times> json) list"

text \<open>The type name Python prints in an \<open>AttributeError\<close>.\<close>

fun type_name :: "json \<Rightarrow> string" where
  "type_name JNull = ''NoneType''"
| "type_name (JBool b) = ''bool''"
| "type_name (JInt i) = ''int''"
| "type_name (JFloat r) = ''float''"
| "type_name (JStr s) = ''str''"
| "type_name (JList xs) = ''list''"
| "type_name (JDict kvs) = ''dict''"

definition quoted :: "string \<Rightarrow> string" where
  "quoted s = CHR 0x27 # s @ [CHR 0x27]"

definition attribute_error :: "json \<Rightarrow> string \<Rightarrow> string" where
  "attribute_error j attr =
     quoted (type_name j) @ '' object has no attribute '' @ quoted attr"

text \<open>
  \<open>{**d, k: v}\<close> and \<open>d[k] = v\<close>: an existing key keeps its position and takes the new
  value, a new key goes to the end.
\<close>

fun dict_set :: "(string \<times> json) list \<Rightarrow> string \<Rightarrow> json \<Rightarrow> (string \<times> json) list" where
  "dict_set [] k v = [(k, v)]"
| "dict_set ((k', v') # kvs) k v =
     (if k' = k then (k, v) # kvs else (k', v') # dict_set kvs k v)"

section \<open>app/utils/exceptions.py\<close>

text \<open>
  The exception classes of the application: \<open>PDFProcessingError\<close> is the base class, the
  other four derive from it and add nothing. Each carries \<open>message\<close> and \<open>details\<close>;
  \<open>str(e)\<close> is the message.
\<close>

datatype pdf_error =
    PDFProcessingError string "string option"
  | InvalidFileError string "string option"
  | FileSizeError string "string option"
  | APICallError string "string option"
  | ProcessingTimeoutError string "string option"

fun message :: "pdf_error \<Rightarrow> string" where
  "message (PDFProcessingError m d) = m"
| "message (InvalidFileError m d) = m"
| "message (FileSizeError m d) = m"
| "message (APICallError m d) = m"
| "message (ProcessingTimeoutError m d) = m"

fun details :: "pdf_error \<Rightarrow> string option" where
  "details (PDFProcessingError m d) = d"
| "details (InvalidFileError m d) = d"
| "details (FileSizeError m d) = d"
| "details (APICallError m d) = d"
| "details (ProcessingTimeoutError m d) = d"

text \<open>FastAPI's \<open>HTTPException(status_code, detail)\<close>.\<close>

datatype http_exception = HTTPException int json

definition create_http_exception :: "pdf_error \<Rightarrow> http_exception" where
  "create_http_exception e =
     HTTPException 400
       (JDict [(''error'', JStr (message e)),
               (''details'', case details e of None \<Rightarrow> JNull | Some d \<Rightarrow> JStr d)])"

text \<open>
  What the libraries raise inside \<open>process_image\<close>, by the \<open>except\<close> clause that catches
  it; the string is \<open>str(e)\<close>.
\<close>

datatype raised =
    AsyncioTimeoutError
  | AiohttpClientError string
  | OtherException string

section \<open>app/core/config.py\<close>

record Settings =
  app_name :: string
  app_version :: string
  openai_api_url :: string
  openai_api_key :: string
  openai_timeout :: int
  mmlm_model :: string
  max_file_size :: int
  allowed_extensions :: "string list"
  image_dpi :: int
  image_format :: string
  max_concurrent_requests :: int
  batch_size :: int

section \<open>app/models/schemas.py\<close>

record ProcessingMetadata =
  confidence_score :: "real option"
  processing_time :: "real option"
  image_dimensions :: "(int \<times> int) option"
  file_size :: "int option"
  additional_data :: "(string \<times> json) list option"

record PageResult =
  page_number :: int
  processed_output :: "(string \<times> json) list"
  metadata :: "ProcessingMetadata option"
  error :: "string option"

record PDFProcessResponse =
  success :: bool
  total_pages :: int
  processed_pages :: int
  results :: "PageResult list"
  processing_time_total :: real
  timestamp :: real
  errors :: "string list option"

section \<open>What a request does to the outside\<close>

text \<open>
  The calls that leave the process, in the order they are made: opening the payload with
  the PDF library, rendering a page (0-based, as \<open>load_page\<close> takes it), and posting a
  request (URL, JSON body, headers) to the completion service.
\<close>

datatype effect =
    FitzOpen bytes
  | RenderPage nat
  | HttpPost string json "(string \<times> string) list"

fun is_HttpPost :: "effect \<Rightarrow> bool" where
  "is_HttpPost (HttpPost url body headers) = True"
| "is_HttpPost e = False"

section \<open>app/services/pdf\_processor.py\<close>

text \<open>
  The PDF library is outside the repository. A page of an opened document is what
  rendering it gives: called with the zoom factor, the output format and the JPEG quality,
  it returns the encoded image with its size and the seconds it took, or the \<open>str\<close> of
  the exception some step of the rendering raised. \<open>fitz.open\<close> takes the payload to
  the document, or to the \<open>str\<close> of the exception it raised.
\<close>

record rendered =
  image_bytes :: bytes
  width :: int
  height :: int
  seconds :: real

type_synonym page_src = "real \<Rightarrow> string \<Rightarrow> int option \<Rightarrow> string + rendered"
type_synonym document = "page_src list"
type_synonym pdf_library = "bytes \<Rightarrow> string + document"
type_synonym pages_data = "(int \<times> bytes \<times> ProcessingMetadata) list"

definition page_count :: "document \<Rightarrow> nat" where
  "page_count doc = length doc"

record PDFProcessor =
  dpi :: int
  self_image_format :: string

definition PDFProcessor_init :: "Settings \<Rightarrow> PDFProcessor" where
  "PDFProcessor_init settings =
     \<lparr>dpi = image_dpi settings, self_image_format = upper (image_format settings)\<rparr>"

definition validate_pdf ::
  "Settings \<Rightarrow> pdf_library \<Rightarrow> bytes \<Rightarrow> effect list \<times> (pdf_error + unit)" where
  "validate_pdf settings fitz_open file_content =
     (if int (length file_content) > max_file_size settings then
        ([], Inl (PDFProcessingError
                    (''File size exceeds maximum allowed size of ''
                       @ str_int (max_file_size settings) @ '' bytes'') None))
      else
        ([FitzOpen file_content],
         case (case fitz_open file_content of
                 Inl e \<Rightarrow> Inl e
               | Inr doc \<Rightarrow>
                   if page_count doc = 0 then Inl ''PDF file contains no pages'' else Inr ())
         of
           Inl e \<Rightarrow> Inl (InvalidFileError (''Invalid PDF file: '' @ e) None)
         | Inr u \<Rightarrow> Inr ()))"

text \<open>
  Rendering one page in \<open>extract_pages_as_images\<close> (\<open>load_page\<close>, \<open>get_pixmap\<close> with the
  matrix of \<open>dpi / 72\<close>, \<open>tobytes\<close>, \<open>Image.open\<close>, \<open>save\<close> in the configured format,
  with quality 95 for JPEG).
\<close>

definition render :: "PDFProcessor \<Rightarrow> page_src \<Rightarrow> string + rendered" where
  "render self page =
     page (real_of_int (dpi self) / 72) (self_image_format self)
       (if self_image_format self = ''JPEG'' then Some 95 else None)"

text \<open>
  The body of the loop \<open>for page_num in range(doc.page_count)\<close>, over the page numbers
  still to do, with \<open>pages_data\<close> as built so far. An exception leaves the loop.
\<close>

fun extract_loop ::
  "PDFProcessor \<Rightarrow> document \<Rightarrow> nat list \<Rightarrow> pages_data \<Rightarrow> effect list \<times> (string + pages_data)"
where
  "extract_loop self doc [] pages_data = ([], Inr pages_data)"
| "extract_loop self doc (page_num # rest) pages_data =
     (case render self (doc ! page_num) of
        Inl e \<Rightarrow> ([RenderPage page_num], Inl e)
      | Inr r \<Rightarrow>
          (let metadata =
                 \<lparr>confidence_score = None,
                  processing_time = Some (seconds r),
                  image_dimensions = Some (width r, height r),
                  file_size = Some (int (length (image_bytes r))),
                  additional_data = None\<rparr>;
               (effects, result) =
                 extract_loop self doc rest
                   (pages_data @ [(int page_num + 1, image_bytes r, metadata)])
           in (RenderPage page_num # effects, result)))"

definition extract_pages_as_images ::
  "PDFProcessor \<Rightarrow> pdf_library \<Rightarrow> bytes \<Rightarrow> effect list \<times> (pdf_error + pages_data)" where
  "extract_pages_as_images self fitz_open file_content =
     (case fitz_open file_content of
        Inl e \<Rightarrow>
          ([FitzOpen file_content],
           Inl (PDFProcessingError (''Failed to extract pages from PDF: '' @ e) None))
      | Inr doc \<Rightarrow>
          (case extract_loop self doc [0..<page_count doc] [] of
             (effects, Inl e) \<Rightarrow>
               (FitzOpen file_content # effects,
                Inl (PDFProcessingError (''Failed to extract pages from PDF: '' @ e) None))
           | (effects, Inr pages_data) \<Rightarrow> (FitzOpen file_content # effects, Inr pages_data)))"

text \<open>
  \<open>_read_file_async\<close> copies the upload to a temporary file in chunks of 8192 bytes and
  reads the file back.
\<close>

function read_chunks :: "bytes \<Rightarrow> bytes \<Rightarrow> bytes" where
  "read_chunks file tmp_file =
     (let chunk = take 8192 file
      in if chunk = [] then tmp_file else read_chunks (drop 8192 file) (tmp_file @ chunk))"
  by pat_completeness auto
termination
  by (relation "measure (\<lambda>(file, tmp_file). length file)") auto

declare read_chunks.simps [simp del]

definition read_file_async :: "bytes \<Rightarrow> bytes" where
  "read_file_async file = read_chunks file []"

definition process_pdf_stream ::
  "Settings \<Rightarrow> PDFProcessor \<Rightarrow> pdf_library \<Rightarrow> bytes \<Rightarrow> effect list \<times> (pdf_error + pages_data)"
where
  "process_pdf_stream settings self fitz_open file =
     (let content = read_file_async file;
          (effects, valid) = validate_pdf settings fitz_open content
      in case valid of
           Inl e \<Rightarrow> (effects, Inl e)
         | Inr u \<Rightarrow>
             (let (effects', result) = extract_pages_as_images self fitz_open content
              in (effects @ effects', result)))"

section \<open>app/services/openai\_client.py\<close>

text \<open>
  \<open>asyncio.Semaphore(value)\<close> raises \<open>ValueError\<close> for a negative value; otherwise the
  semaphore starts with \<open>value\<close> free slots.
\<close>

record OpenAIClient =
  api_url :: string
  api_key :: string
  timeout :: int
  self_mmlm_model :: string
  semaphore :: nat

definition OpenAIClient_init :: "Settings \<Rightarrow> OpenAIClient option" where
  "OpenAIClient_init settings =
     (if max_concurrent_requests settings < 0 then None
      else Some \<lparr>api_url = openai_api_url settings,
                 api_key = openai_api_key settings,
                 timeout = openai_timeout settings,
                 self_mmlm_model = mmlm_model settings,
                 semaphore = nat (max_concurrent_requests settings)\<rparr>)"

text \<open>
  The completion service is outside the repository. One exchange with it (\<open>session.post\<close>
  and \<open>response.json()\<close>) either raises, or gives a status, the decoded body and the
  seconds since \<open>start_time\<close>.
\<close>

datatype exchange =
    Raises raised
  | Responds int json real

definition instruction :: string where
  "instruction =
     ''Please extract and transcribe only the raw text content from the following page image. ''
     @ ''Your response must be formatted in **Markdown**. ''
     @ ''If the image contains tables, convert them into valid Markdown table format. ''
     @ ''Do not add any extra commentary, explanation, or formatting beyond what is in the image.''"

definition request_payload :: "OpenAIClient \<Rightarrow> string \<Rightarrow> json" where
  "request_payload self image_b64 =
     JDict
       [(''model'', JStr (self_mmlm_model self)),
        (''messages'',
         JList
           [JDict
              [(''role'', JStr ''user''),
               (''content'',
                JList
                  [JDict [(''type'', JStr ''text''), (''text'', JStr instruction)],
                   JDict
                     [(''type'', JStr ''image_url''),
                      (''image_url'',
                       JDict [(''url'', JStr (''data:image/png;base64,'' @ image_b64))])]])]]),
        (''max_tokens'', JInt 1000)]"

definition request_headers :: "OpenAIClient \<Rightarrow> (string \<times> string) list" where
  "request_headers self =
     [(''Authorization'', ''Bearer '' @ api_key self),
      (''Content-Type'', ''application/json'')]"

text \<open>\<open>d.get(key, default)\<close>: an \<open>AttributeError\<close> when \<open>d\<close> is not a dict.\<close>

fun dict_get :: "json \<Rightarrow> string \<Rightarrow> json \<Rightarrow> raised + json" where
  "dict_get (JDict kvs) key dflt =
     Inr (case map_of kvs key of None \<Rightarrow> dflt | Some v \<Rightarrow> v)"
| "dict_get j key dflt = Inl (OtherException (attribute_error j ''get''))"

text \<open>
  What \<open>process_image\<close> does with a response, inside its \<open>try\<close>. \<open>py_str\<close> is Python's
  \<open>str\<close> on a decoded JSON value, as the f-string applies it to the service's message.
\<close>

definition read_response ::
  "(json \<Rightarrow> string) \<Rightarrow> ProcessingMetadata \<Rightarrow> int \<Rightarrow> json \<Rightarrow> real
     \<Rightarrow> raised + json \<times> ProcessingMetadata" where
  "read_response py_str metadata' status response_data api_processing_time =
     (if status \<noteq> 200 then
        (case dict_get response_data ''error'' (JDict []) of
           Inl r \<Rightarrow> Inl r
         | Inr err \<Rightarrow>
             (case dict_get err ''message'' (JStr ''Unknown API error'') of
                Inl r \<Rightarrow> Inl r
              | Inr error_msg \<Rightarrow>
                  Inl (OtherException (''OpenAI API request failed: '' @ py_str error_msg))))
      else
        (case processing_time metadata' of
           None \<Rightarrow>
             Inl (OtherException
                    (''unsupported operand type(s) for +: '' @ quoted ''NoneType''
                       @ '' and '' @ quoted ''float''))
         | Some t \<Rightarrow>
             (case dict_get response_data ''usage'' (JDict []) of
                Inl r \<Rightarrow> Inl r
              | Inr usage \<Rightarrow>
                  (case dict_get usage ''total_tokens'' (JInt 0) of
                     Inl r \<Rightarrow> Inl r
                   | Inr total_tokens \<Rightarrow>
                       Inr (response_data,
                            \<lparr>confidence_score = confidence_score metadata',
                             processing_time = Some (t + api_processing_time),
                             image_dimensions = image_dimensions metadata',
                             file_size = file_size metadata',
                             additional_data =
                               Some (dict_set
                                       (dict_set
                                          (case additional_data metadata' of
                                             None \<Rightarrow> [] | Some d \<Rightarrow> d)
                                          ''api_processing_time'' (JFloat api_processing_time))
                                       ''api_response_tokens'' total_tokens)\<rparr>)))))"

definition process_image ::
  "OpenAIClient \<Rightarrow> (json \<Rightarrow> string) \<Rightarrow> bytes \<Rightarrow> int \<Rightarrow> ProcessingMetadata \<Rightarrow> exchange
     \<Rightarrow> effect list \<times> (pdf_error + json \<times> ProcessingMetadata)" where
  "process_image self py_str image_data page_num metadata' xch =
     (let image_b64 = b64encode image_data;
          payload = request_payload self image_b64;
          headers = request_headers self;
          attempt =
            (case xch of
               Raises r \<Rightarrow> Inl r
             | Responds status response_data api_processing_time \<Rightarrow>
                 read_response py_str metadata' status response_data api_processing_time)
      in ([HttpPost (api_url self) payload headers],
          case attempt of
            Inl AsyncioTimeoutError \<Rightarrow>
              Inl (APICallError
                     (''API request timed out after '' @ str_int (timeout self) @ '' seconds'')
                     None)
          | Inl (AiohttpClientError e) \<Rightarrow>
              Inl (APICallError (''Network error during API request: '' @ e) None)
          | Inl (OtherException e) \<Rightarrow>
              Inl (APICallError (''Unexpected error during API request: '' @ e) None)
          | Inr r \<Rightarrow> Inr r))"

type_synonym page_outcome = "pdf_error + int \<times> json \<times> ProcessingMetadata"
type_synonym api_result = "int \<times> json \<times> ProcessingMetadata \<times> string option"

definition process_single_page ::
  "OpenAIClient \<Rightarrow> (json \<Rightarrow> string) \<Rightarrow> int \<Rightarrow> bytes \<Rightarrow> ProcessingMetadata \<Rightarrow> exchange
     \<Rightarrow> effect list \<times> page_outcome" where
  "process_single_page self py_str page_num image_data metadata' xch =
     (let (effects, r) = process_image self py_str image_data page_num metadata' xch
      in (effects,
          case r of
            Inl e \<Rightarrow> Inl e
          | Inr (api_response, updated_metadata) \<Rightarrow>
              Inr (page_num, api_response, updated_metadata)))"

text \<open>
  \<open>asyncio.gather(*tasks, return_exceptions=True)\<close>: each task's result, a raised
  exception included, is stored in the slot of the task's position when the task
  completes; gather returns the slots once all are filled. \<open>completion\<close> lists the task
  positions in the order the tasks complete. A task that never completes leaves its slot
  empty and gather never returns: the value \<open>None\<close>.
\<close>

definition gather :: "nat list \<Rightarrow> 'a list \<Rightarrow> 'a list option" where
  "gather completion tasks =
     those (fold (\<lambda>i slots. if i < length slots then slots[i := Some (tasks ! i)] else slots)
              completion (replicate (length tasks) None))"

definition process_batch ::
  "OpenAIClient \<Rightarrow> (json \<Rightarrow> string) \<Rightarrow> (nat \<Rightarrow> exchange) \<Rightarrow> nat list \<Rightarrow> pages_data
     \<Rightarrow> (effect list \<times> api_result list) option" where
  "process_batch self py_str exchanges completion pages_data =
     (let tasks =
            map (\<lambda>(i, (page_num, image_data, metadata)).
                   process_single_page self py_str page_num image_data metadata (exchanges i))
              (enumerate 0 pages_data)
      in case gather completion (map snd tasks) of
           None \<Rightarrow> None
         | Some results' \<Rightarrow>
             Some (concat (map fst tasks),
                   map (\<lambda>(i, result).
                          case result of
                            Inl e \<Rightarrow>
                              (fst (pages_data ! i), JDict [], snd (snd (pages_data ! i)),
                               Some (message e))
                          | Inr (page_num, api_response, updated_metadata) \<Rightarrow>
                              (page_num, api_response, updated_metadata, None))
                     (enumerate 0 results')))"

section \<open>app/api/endpoints.py\<close>

record UploadFile =
  filename :: "string option"
  content_type :: "string option"
  upload :: bytes

text \<open>
  What the request meets outside the code: the PDF library, the completion service's
  answer to the request of each task (by task position), the order in which the tasks
  complete, Python's \<open>str\<close> on JSON values, and the two clock readings of the response.
\<close>

record world =
  fitz_open :: pdf_library
  exchanges :: "nat \<Rightarrow> exchange"
  completion :: "nat list"
  py_str :: "json \<Rightarrow> string"
  elapsed :: real
  utcnow :: real

text \<open>
  What the \<open>try\<close> block of the endpoint raises: a \<open>PDFProcessingError\<close> (any of its
  subclasses), an \<open>HTTPException\<close>, or another exception (with its \<open>str\<close>).
\<close>

datatype endpoint_raise =
    RaisedPDFProcessingError pdf_error
  | RaisedHTTPException http_exception
  | RaisedException string

text \<open>
  \<open>PageResult(...)\<close> validates its fields: \<open>page_number\<close> is declared \<open>ge=1\<close> and
  \<open>processed_output\<close> is a dict; otherwise pydantic raises a \<open>ValidationError\<close>.
\<close>

definition PageResult_init ::
  "int \<Rightarrow> json \<Rightarrow> ProcessingMetadata option \<Rightarrow> string option \<Rightarrow> endpoint_raise + PageResult"
where
  "PageResult_init n out m e =
     (if n < 1 then Inl (RaisedException ''1 validation error for PageResult'')
      else case out of
             JDict kvs \<Rightarrow>
               Inr \<lparr>page_number = n, processed_output = kvs, metadata = m, error = e\<rparr>
           | _ \<Rightarrow> Inl (RaisedException ''1 validation error for PageResult''))"

text \<open>
  The loop \<open>for page_num, api_response, metadata, error in api_results\<close>, with the three
  variables it updates. \<open>if error:\<close> is true for a string that is not empty.
\<close>

fun collect ::
  "api_result list \<Rightarrow> PageResult list \<Rightarrow> string list \<Rightarrow> int
     \<Rightarrow> endpoint_raise + PageResult list \<times> string list \<times> int" where
  "collect [] results' errors' processed_count = Inr (results', errors', processed_count)"
| "collect ((page_num, api_response, metadata', error') # rest) results' errors' processed_count =
     (case (case error' of None \<Rightarrow> None | Some e \<Rightarrow> if e = [] then None else Some e) of
        Some e \<Rightarrow>
          (case PageResult_init page_num (JDict []) (Some metadata') error' of
             Inl v \<Rightarrow> Inl v
           | Inr r \<Rightarrow>
               collect rest (results' @ [r])
                 (errors' @ [''Page '' @ str_int page_num @ '': '' @ e]) processed_count)
      | None \<Rightarrow>
          (case PageResult_init page_num api_response (Some metadata') None of
             Inl v \<Rightarrow> Inl v
           | Inr r \<Rightarrow> collect rest (results' @ [r]) errors' (processed_count + 1)))"

definition process_pdf_try ::
  "Settings \<Rightarrow> world \<Rightarrow> UploadFile \<Rightarrow> PDFProcessor \<Rightarrow> OpenAIClient
     \<Rightarrow> (effect list \<times> (endpoint_raise + PDFProcessResponse)) option" where
  "process_pdf_try settings w file pdf_processor openai_client =
     (case filename file of
        None \<Rightarrow>
          Some ([], Inl (RaisedException
                           (quoted ''NoneType'' @ '' object has no attribute '' @ quoted ''lower'')))
      | Some name \<Rightarrow>
          if \<not> endswith (lower name) ''.pdf'' then
            Some ([], Inl (RaisedHTTPException
                             (HTTPException 400 (JStr ''Only PDF files are allowed''))))
          else
            (case process_pdf_stream settings pdf_processor (fitz_open w) (upload file) of
               (effects, Inl e) \<Rightarrow> Some (effects, Inl (RaisedPDFProcessingError e))
             | (effects, Inr pages_data) \<Rightarrow>
                 if pages_data = [] then
                   Some (effects, Inl (RaisedHTTPException
                                         (HTTPException 400 (JStr ''No pages found in PDF file''))))
                 else
                   (case process_batch openai_client (py_str w) (exchanges w) (completion w)
                           pages_data of
                      None \<Rightarrow> None
                    | Some (effects', api_results) \<Rightarrow>
                        Some (effects @ effects',
                              case collect api_results [] [] 0 of
                                Inl v \<Rightarrow> Inl v
                              | Inr (results', errors', processed_count) \<Rightarrow>
                                  Inr \<lparr>success = (length errors' = 0),
                                       total_pages = int (length pages_data),
                                       processed_pages = processed_count,
                                       results = results',
                                       processing_time_total = elapsed w,
                                       timestamp = utcnow w,
                                       errors = (if errors' = [] then None else Some errors')\<rparr>))))"

text \<open>
  The two \<open>except\<close> clauses of the endpoint: a \<open>PDFProcessingError\<close> becomes the HTTP
  error of \<open>create_http_exception\<close>; every other exception, an \<open>HTTPException\<close> raised
  inside the \<open>try\<close> included, becomes the status 500.
\<close>

definition process_pdf ::
  "Settings \<Rightarrow> world \<Rightarrow> UploadFile \<Rightarrow> PDFProcessor \<Rightarrow> OpenAIClient
     \<Rightarrow> (effect list \<times> (http_exception + PDFProcessResponse)) option" where
  "process_pdf settings w file pdf_processor openai_client =
     (case process_pdf_try settings w file pdf_processor openai_client of
        None \<Rightarrow> None
      | Some (effects, Inl (RaisedPDFProcessingError e)) \<Rightarrow>
          Some (effects, Inl (create_http_exception e))
      | Some (effects, Inl v) \<Rightarrow>
          Some (effects,
                Inl (HTTPException 500
                       (JStr ''Internal server error occurred during processing'')))
      | Some (effects, Inr response) \<Rightarrow> Some (effects, Inr response))"

section \<open>The semaphore of the client\<close>

text \<open>
  \<open>process_image\<close> runs its whole body, the call to the service included, inside
  \<open>async with self.semaphore\<close>. A task enters the block by acquiring the semaphore, which
  needs a free slot and takes it; a task that finds no free slot stays waiting. Leaving the
  block (by \<open>return\<close> or by an exception) releases the slot. The tasks of a batch are
  known by their positions; between two steps the event loop may run any other task.
\<close>

datatype action = Acquire nat | Release nat

record scheduler =
  slots :: nat
  waiting :: "nat list"
  in_flight :: "nat list"
  completed :: "nat list"

definition dispatch_start :: "OpenAIClient \<Rightarrow> nat \<Rightarrow> scheduler" where
  "dispatch_start self m =
     \<lparr>slots = semaphore self, waiting = [0..<m], in_flight = [], completed = []\<rparr>"

fun step :: "action \<Rightarrow> scheduler \<Rightarrow> scheduler option" where
  "step (Acquire i) s =
     (if i \<in> set (waiting s) \<and> 0 < slots s then
        Some (s\<lparr>slots := slots s - 1, waiting := remove1 i (waiting s),
                in_flight := in_flight s @ [i]\<rparr>)
      else None)"
| "step (Release i) s =
     (if i \<in> set (in_flight s) then
        Some (s\<lparr>slots := slots s + 1, in_flight := remove1 i (in_flight s),
                completed := completed s @ [i]\<rparr>)
      else None)"

fun run :: "action list \<Rightarrow> scheduler \<Rightarrow> scheduler option" where
  "run [] s = Some s"
| "run (a # acts) s = (case step a s of None \<Rightarrow> None | Some s' \<Rightarrow> run acts s')"

section \<open>Notions used to state the properties\<close>

text \<open>The page record the extraction loop appends for page \<open>i\<close> (0-based) rendered as \<open>r\<close>.\<close>

definition page_metadata :: "rendered \<Rightarrow> ProcessingMetadata" where
  "page_metadata r =
     \<lparr>confidence_score = None, processing_time = Some (seconds r),
      image_dimensions = Some (width r, height r),
      file_size = Some (int (length (image_bytes r))), additional_data = None\<rparr>"

definition page_record ::
  "PDFProcessor \<Rightarrow> document \<Rightarrow> nat \<Rightarrow> int \<times> bytes \<times> ProcessingMetadata" where
  "page_record self doc i =
     (let r = projr (render self (doc ! i)) in (int i + 1, image_bytes r, page_metadata r))"

text \<open>
  The entry \<open>process_batch\<close> makes for one page from the result of its \<open>process_image\<close>,
  and the request \<open>process_image\<close> posts for it.
\<close>

definition outcome_of ::
  "OpenAIClient \<Rightarrow> (json \<Rightarrow> string) \<Rightarrow> exchange \<Rightarrow> int \<times> bytes \<times> ProcessingMetadata
     \<Rightarrow> api_result" where
  "outcome_of self str xch page =
     (case page of
        (page_num, image_data, meta) \<Rightarrow>
          (case snd (process_image self str image_data page_num meta xch) of
             Inl e \<Rightarrow> (page_num, JDict [], meta, Some (message e))
           | Inr (api_response, updated_metadata) \<Rightarrow>
               (page_num, api_response, updated_metadata, None)))"

definition post_of :: "OpenAIClient \<Rightarrow> int \<times> bytes \<times> ProcessingMetadata \<Rightarrow> effect" where
  "post_of self page =
     (case page of
        (page_num, image_data, meta) \<Rightarrow>
          HttpPost (api_url self) (request_payload self (b64encode image_data))
            (request_headers self))"

text \<open>
  The slot of task \<open>j\<close> in \<open>gather\<close> once the tasks of \<open>S\<close> have completed, and the
  \<open>error\<close> field the endpoint's loop gives a result (\<open>if error:\<close> takes the empty string
  for no error).
\<close>

definition slot_of :: "'a list \<Rightarrow> nat set \<Rightarrow> nat \<Rightarrow> 'a option" where
  "slot_of tasks S j = (if j \<in> S then Some (tasks ! j) else None)"

definition reported_error :: "string option \<Rightarrow> string option" where
  "reported_error e = (case e of None \<Rightarrow> None | Some m \<Rightarrow> if m = [] then None else Some m)"

text \<open>The line of the \<open>errors\<close> list for a failed page.\<close>

definition error_line :: "PageResult \<Rightarrow> string" where
  "error_line r = ''Page '' @ str_int (page_number r) @ '': '' @ the (error r)"

text \<open>The exception class tests the properties speak of.\<close>

fun is_InvalidFileError :: "pdf_error \<Rightarrow> bool" where
  "is_InvalidFileError (InvalidFileError m d) = True"
| "is_InvalidFileError e = False"

fun is_FileSizeError :: "pdf_error \<Rightarrow> bool" where
  "is_FileSizeError (FileSizeError m d) = True"
| "is_FileSizeError e = False"

section \<open>A worked example\<close>

text \<open>
  A configuration with a small size limit, a PDF library that knows four payloads (a
  three-page document, one whose second page cannot be rendered, an empty document, and
  anything else, which does not open), and pages that render to fixed images.
\<close>

definition example_settings :: Settings where
  "example_settings =
     \<lparr>app_name = ''PDF Processor API'', app_version = ''1.0.0'',
      openai_api_url = ''https://api.example.com/v1/chat/completions'',
      openai_api_key = ''sk-test'', openai_timeout = 30, mmlm_model = ''gpt-4o'',
      max_file_size = 5, allowed_extensions = [''.pdf''], image_dpi = 300,
      image_format = ''PNG'', max_concurrent_requests = 2, batch_size = 5\<rparr>"

definition example_page :: "bytes \<Rightarrow> page_src" where
  "example_page img =
     (\<lambda>zoom fmt quality. Inr \<lparr>image_bytes = img, width = 2480, height = 3508, seconds = 2\<rparr>)"

definition broken_page :: page_src where
  "broken_page = (\<lambda>zoom fmt quality. Inl ''cannot render page'')"

definition three_pages :: document where
  "three_pages = [example_page [77], example_page [77, 97], example_page [77, 97, 110]]"

definition second_page_broken :: document where
  "second_page_broken = [example_page [77], broken_page, example_page [77, 97, 110]]"

definition example_library :: pdf_library where
  "example_library content =
     (if content = [37, 80, 68, 70] then Inr three_pages
      else if content = [37, 80, 68, 70, 0] then Inr second_page_broken
      else if content = [37, 80] then Inr []
      else Inl ''cannot open broken document'')"

definition example_processor :: PDFProcessor where
  "example_processor = PDFProcessor_init example_settings"

definition example_client :: OpenAIClient where
  "example_client =
     \<lparr>api_url = ''https://api.example.com/v1/chat/completions'', api_key = ''sk-test'',
      timeout = 30, self_mmlm_model = ''gpt-4o'', semaphore = 2\<rparr>"

text \<open>
  The service answers the first and the third request; the second request times out. The
  third task completes first, the second last.
\<close>

definition example_body :: json where
  "example_body =
     JDict [(''choices'', JList [JStr ''# Invoice'']),
            (''usage'', JDict [(''total_tokens'', JInt 42)])]"

definition example_exchanges :: "nat \<Rightarrow> exchange" where
  "example_exchanges i =
     (if i = 1 then Raises AsyncioTimeoutError else Responds 200 example_body 3)"

definition example_str :: "json \<Rightarrow> string" where
  "example_str j = (case j of JStr s \<Rightarrow> s | _ \<Rightarrow> ''None'')"

definition example_world :: world where
  "example_world =
     \<lparr>fitz_open = example_library, exchanges = example_exchanges, completion = [2, 0, 1],
      py_str = example_str, elapsed = 7, utcnow = 1700000000\<rparr>"

definition example_upload :: "bytes \<Rightarrow> UploadFile" where
  "example_upload content =
     \<lparr>filename = Some ''Invoice.PDF'', content_type = Some ''application/pdf'',
      upload = content\<rparr>"

text \<open>
  The three pages as extracted, what \<open>process_batch\<close> returns for them, what the request
  does to the outside, and the response.
\<close>

definition example_meta :: "nat \<Rightarrow> ProcessingMetadata" where
  "example_meta n =
     \<lparr>confidence_score = None, processing_time = Some 2,
      image_dimensions = Some (2480, 3508), file_size = Some (int n), additional_data = None\<rparr>"

definition example_updated :: "nat \<Rightarrow> ProcessingMetadata" where
  "example_updated n =
     \<lparr>confidence_score = None, processing_time = Some 5,
      image_dimensions = Some (2480, 3508), file_size = Some (int n),
      additional_data =
        Some [(''api_processing_time'', JFloat 3), (''api_response_tokens'', JInt 42)]\<rparr>"

definition example_pages :: pages_data where
  "example_pages =
     [(1, [77], example_meta 1), (2, [77, 97], example_meta 2),
      (3, [77, 97, 110], example_meta 3)]"

definition example_outs :: "api_result list" where
  "example_outs =
     [(1, example_body, example_updated 1, None),
      (2, JDict [], example_meta 2, Some ''API request timed out after 30 seconds''),
      (3, example_body, example_updated 3, None)]"

definition example_effects :: "effect list" where
  "example_effects =
     [FitzOpen [37, 80, 68, 70], FitzOpen [37, 80, 68, 70], RenderPage 0, RenderPage 1,
      RenderPage 2] @ map (post_of example_client) example_pages"

definition example_report :: PDFProcessResponse where
  "example_report =
     \<lparr>success = False, total_pages = 3, processed_pages = 2,
      results =
        [\<lparr>page_number = 1,
          processed_output =
            [(''choices'', JList [JStr ''# Invoice'']),
             (''usage'', JDict [(''total_tokens'', JInt 42)])],
          metadata = Some (example_updated 1), error = None\<rparr>,
         \<lparr>page_number = 2, processed_output = [], metadata = Some (example_meta 2),
          error = Some ''API request timed out after 30 seconds''\<rparr>,
         \<lparr>page_number = 3,
          processed_output =
            [(''choices'', JList [JStr ''# Invoice'']),
             (''usage'', JDict [(''total_tokens'', JInt 42)])],
          metadata = Some (example_updated 3), error = None\<rparr>],
      processing_time_total = 7, timestamp = 1700000000,
      errors = Some [''Page 2: API request timed out after 30 seconds'']\<rparr>"

text \<open>The same configuration with JPEG as the output image format.\<close>

definition jpeg_settings :: Settings where
  "jpeg_settings = example_settings\<lparr>image_format := ''jpeg''\<rparr>"

lemmas example_defs =
  example_processor_def PDFProcessor_init_def example_settings_def example_library_def
  three_pages_def second_page_broken_def example_page_def broken_page_def render_def
  upper_def upper_char_def

section \<open>Reading, validating and extracting\<close>

lemma read_chunks_append: "read_chunks data acc = acc @ data"
proof (induction data acc rule: read_chunks.induct)
  case (1 data acc)
  show ?case
  proof (cases "take 8192 data = []")
    case True
    then have "data = []" by (cases data) auto
    then show ?thesis by (simp add: read_chunks.simps)
  next
    case False
    then have "read_chunks data acc = read_chunks (drop 8192 data) (acc @ take 8192 data)"
      by (subst read_chunks.simps) (simp add: Let_def)
    also have "\<dots> = (acc @ take 8192 data) @ drop 8192 data"
      using 1 False by simp
    finally show ?thesis by simp
  qed
qed

lemma read_file_async_id [simp]: "read_file_async data = data"
  by (simp add: read_file_async_def read_chunks_append)

lemma extract_loop_ok:
  "list_all (\<lambda>i. \<not> isl (render self (doc ! i))) idxs \<Longrightarrow>
   extract_loop self doc idxs acc =
     (map RenderPage idxs, Inr (acc @ map (page_record self doc) idxs))"
proof (induction idxs arbitrary: acc)
  case Nil
  then show ?case by simp
next
  case (Cons i idxs)
  then obtain r where r: "render self (doc ! i) = Inr r"
    by (cases "render self (doc ! i)") auto
  from Cons have "extract_loop self doc idxs (acc @ [page_record self doc i]) =
     (map RenderPage idxs,
      Inr ((acc @ [page_record self doc i]) @ map (page_record self doc) idxs))"
    by simp
  then show ?case using r by (simp add: page_record_def page_metadata_def Let_def)
qed

lemma extract_loop_fail:
  "find isl (map (\<lambda>i. render self (doc ! i)) idxs) = Some (Inl e) \<Longrightarrow>
   snd (extract_loop self doc idxs acc) = Inl e"
proof (induction idxs arbitrary: acc)
  case Nil
  then show ?case by simp
next
  case (Cons k idxs)
  show ?case
  proof (cases "render self (doc ! k)")
    case (Inl e')
    with Cons.prems show ?thesis by simp
  next
    case (Inr r)
    let ?acc = "acc @ [(int k + 1, image_bytes r,
                  \<lparr>confidence_score = None, processing_time = Some (seconds r),
                   image_dimensions = Some (width r, height r),
                   file_size = Some (int (length (image_bytes r))),
                   additional_data = None\<rparr>)]"
    from Inr Cons.prems have "find isl (map (\<lambda>i. render self (doc ! i)) idxs) = Some (Inl e)"
      by simp
    then have "snd (extract_loop self doc idxs ?acc) = Inl e"
      by (rule Cons.IH)
    then obtain effects where "extract_loop self doc idxs ?acc = (effects, Inl e)"
      by (cases "extract_loop self doc idxs ?acc") simp
    then show ?thesis using Inr by simp
  qed
qed

lemma find_isl_cases:
  "list_all (\<lambda>x. \<not> isl x) xs \<or> (\<exists>e. find isl xs = Some (Inl e))"
proof (induction xs)
  case Nil
  then show ?case by simp
next
  case (Cons x xs)
  then show ?case by (cases x) auto
qed

lemma map_render_nth:
  "map (\<lambda>i. render self (doc ! i)) [0..<length doc] = map (render self) doc"
  by (rule nth_equalityI) auto

lemma upto_as_map: "map (\<lambda>i. int i + 1) [0..<n] = [1..int n]"
proof (induction n)
  case 0
  then show ?case by simp
next
  case (Suc n)
  have "[1..int (Suc n)] = [1..int n] @ [int n + 1]"
    by (simp add: upto_rec2 add.commute)
  with Suc show ?case by simp
qed

lemma map_fst_page_record:
  "map fst (map (page_record self doc) idxs) = map (\<lambda>i. int i + 1) idxs"
  by (simp add: page_record_def Let_def)

lemma extract_ok:
  assumes "lib file_content = Inr doc"
      and "list_all (\<lambda>p. \<not> isl (render self p)) doc"
  shows "extract_pages_as_images self lib file_content =
           (FitzOpen file_content # map RenderPage [0..<page_count doc],
            Inr (map (page_record self doc) [0..<page_count doc]))"
proof -
  have "list_all (\<lambda>i. \<not> isl (render self (doc ! i))) [0..<length doc]"
    using assms(2) by (simp add: list_all_length)
  from extract_loop_ok[OF this, of "[]"] show ?thesis
    using assms(1) by (simp add: extract_pages_as_images_def page_count_def)
qed

lemma extract_fail:
  assumes "lib file_content = Inr doc"
      and "find isl (map (render self) doc) = Some (Inl e)"
  shows "snd (extract_pages_as_images self lib file_content) =
           Inl (PDFProcessingError (''Failed to extract pages from PDF: '' @ e) None)"
proof -
  have "find isl (map (\<lambda>i. render self (doc ! i)) [0..<length doc]) = Some (Inl e)"
    using assms(2) by (simp add: map_render_nth)
  then have "snd (extract_loop self doc [0..<length doc] []) = Inl e"
    by (rule extract_loop_fail)
  then obtain effects where "extract_loop self doc [0..<length doc] [] = (effects, Inl e)"
    by (cases "extract_loop self doc [0..<length doc] []") simp
  then show ?thesis
    using assms(1) by (simp add: extract_pages_as_images_def page_count_def)
qed

lemma extract_Inr:
  assumes "extract_pages_as_images self lib file_content = (effects, Inr pages_data)"
  shows "\<exists>doc. lib file_content = Inr doc \<and> list_all (\<lambda>p. \<not> isl (render self p)) doc
           \<and> pages_data = map (page_record self doc) [0..<page_count doc]
           \<and> effects = FitzOpen file_content # map RenderPage [0..<page_count doc]"
proof (cases "lib file_content")
  case (Inl e)
  with assms show ?thesis by (simp add: extract_pages_as_images_def)
next
  case (Inr doc)
  from find_isl_cases[of "map (render self) doc"] show ?thesis
  proof
    assume "list_all (\<lambda>x. \<not> isl x) (map (render self) doc)"
    then have ok: "list_all (\<lambda>p. \<not> isl (render self p)) doc"
      by (simp add: list_all_iff)
    from extract_ok[of lib file_content doc self] Inr ok assms show ?thesis by simp
  next
    assume "\<exists>e. find isl (map (render self) doc) = Some (Inl e)"
    then obtain e where "find isl (map (render self) doc) = Some (Inl e)" ..
    from extract_fail[of lib file_content doc self e] Inr this assms show ?thesis by simp
  qed
qed

lemma validate_pdf_oversize:
  "int (length file_content) > max_file_size settings \<Longrightarrow>
   validate_pdf settings lib file_content =
     ([], Inl (PDFProcessingError
                 (''File size exceeds maximum allowed size of ''
                    @ str_int (max_file_size settings) @ '' bytes'') None))"
  by (simp add: validate_pdf_def)

lemma validate_pdf_unparsable:
  "int (length file_content) \<le> max_file_size settings \<Longrightarrow> lib file_content = Inl e \<Longrightarrow>
   validate_pdf settings lib file_content =
     ([FitzOpen file_content], Inl (InvalidFileError (''Invalid PDF file: '' @ e) None))"
  by (simp add: validate_pdf_def)

lemma validate_pdf_no_pages:
  "int (length file_content) \<le> max_file_size settings \<Longrightarrow> lib file_content = Inr [] \<Longrightarrow>
   validate_pdf settings lib file_content =
     ([FitzOpen file_content],
      Inl (InvalidFileError (''Invalid PDF file: '' @ ''PDF file contains no pages'') None))"
  by (simp add: validate_pdf_def page_count_def)

lemma validate_pdf_ok:
  "int (length file_content) \<le> max_file_size settings \<Longrightarrow> lib file_content = Inr doc \<Longrightarrow>
   doc \<noteq> [] \<Longrightarrow>
   validate_pdf settings lib file_content = ([FitzOpen file_content], Inr ())"
  by (simp add: validate_pdf_def page_count_def)

lemma validate_pdf_Inr:
  assumes "validate_pdf settings lib file_content = (effects, Inr u)"
  shows "int (length file_content) \<le> max_file_size settings
           \<and> (\<exists>doc. lib file_content = Inr doc \<and> doc \<noteq> [])
           \<and> effects = [FitzOpen file_content]"
  using assms
  by (auto simp: validate_pdf_def page_count_def split: if_splits sum.splits)

lemma process_pdf_stream_Inr:
  assumes "process_pdf_stream settings self lib data = (effects, Inr pages_data)"
  shows "\<exists>doc. lib data = Inr doc \<and> doc \<noteq> []
           \<and> int (length data) \<le> max_file_size settings
           \<and> list_all (\<lambda>p. \<not> isl (render self p)) doc
           \<and> pages_data = map (page_record self doc) [0..<page_count doc]
           \<and> effects = [FitzOpen data, FitzOpen data] @ map RenderPage [0..<page_count doc]"
proof -
  obtain ve vr where v: "validate_pdf settings lib data = (ve, vr)"
    by (cases "validate_pdf settings lib data")
  obtain ee er where e: "extract_pages_as_images self lib data = (ee, er)"
    by (cases "extract_pages_as_images self lib data")
  from assms v e have vr: "vr = Inr ()" and er: "er = Inr pages_data"
    and effs: "effects = ve @ ee"
    by (auto simp: process_pdf_stream_def split: sum.splits)
  from v vr validate_pdf_Inr[of settings lib data ve "()"]
  have 1: "int (length data) \<le> max_file_size settings"
    and 2: "\<exists>doc. lib data = Inr doc \<and> doc \<noteq> []" and 3: "ve = [FitzOpen data]"
    by auto
  from e er extract_Inr[of self lib data ee pages_data]
  obtain doc where "lib data = Inr doc" "list_all (\<lambda>p. \<not> isl (render self p)) doc"
    "pages_data = map (page_record self doc) [0..<page_count doc]"
    "ee = FitzOpen data # map RenderPage [0..<page_count doc]"
    by auto
  with 1 2 3 effs show ?thesis by auto
qed

lemma process_pdf_stream_ok:
  assumes "int (length data) \<le> max_file_size settings"
      and "lib data = Inr doc" and "doc \<noteq> []"
      and "list_all (\<lambda>p. \<not> isl (render self p)) doc"
  shows "process_pdf_stream settings self lib data =
           ([FitzOpen data, FitzOpen data] @ map RenderPage [0..<page_count doc],
            Inr (map (page_record self doc) [0..<page_count doc]))"
  using validate_pdf_ok[of data settings lib doc] extract_ok[of lib data doc self] assms
  by (simp add: process_pdf_stream_def)

section \<open>Properties of extraction and validation\<close>

text \<open>
  Claim C5. For a valid document with \<open>P\<close> pages (the payload opens and every page
  renders), \<open>extract_pages_as_images\<close> returns exactly \<open>P\<close> page records whose indices
  are \<open>1..P\<close>, strictly increasing and without gaps; every page has been rendered, in
  document order, when the call returns.
\<close>

theorem extract_pages_indices:
  assumes "lib file_content = Inr doc"
      and "list_all (\<lambda>p. \<not> isl (render self p)) doc"
  shows "\<exists>pages_data.
           extract_pages_as_images self lib file_content =
             (FitzOpen file_content # map RenderPage [0..<page_count doc], Inr pages_data)
           \<and> length pages_data = page_count doc
           \<and> map fst pages_data = [1..int (page_count doc)]
           \<and> sorted_wrt (<) (map fst pages_data)"
proof -
  let ?ps = "map (page_record self doc) [0..<page_count doc]"
  have idx: "map fst ?ps = [1..int (page_count doc)]"
    by (simp only: map_fst_page_record upto_as_map)
  have "sorted_wrt (<) [1..int (page_count doc)]"
    by simp
  with idx extract_ok[of lib file_content doc self] assms show ?thesis by auto
qed

text \<open>The three-page document of the example.\<close>

theorem extract_pages_indices_witness:
  "example_library [37, 80, 68, 70] = Inr three_pages
   \<and> list_all (\<lambda>p. \<not> isl (render example_processor p)) three_pages
   \<and> (\<exists>pages_data.
         extract_pages_as_images example_processor example_library [37, 80, 68, 70] =
           ([FitzOpen [37, 80, 68, 70], RenderPage 0, RenderPage 1, RenderPage 2],
            Inr pages_data)
         \<and> length pages_data = 3 \<and> map fst pages_data = [1, 2, 3])"
proof -
  have a: "example_library [37, 80, 68, 70] = Inr three_pages"
    by (simp add: example_library_def)
  have b: "list_all (\<lambda>p. \<not> isl (render example_processor p)) three_pages"
    by (simp add: example_defs)
  have c: "page_count three_pages = 3"
    by (simp add: page_count_def three_pages_def)
  have d: "[0..<3] = [0, 1, 2]"
    by (simp add: upt_rec)
  from extract_pages_indices[where lib = example_library and file_content = "[37, 80, 68, 70]"
        and doc = three_pages and self = example_processor] a b
  show ?thesis
    by (auto simp add: c d upto_rec1)
qed

text \<open>
  Claim C6, as amended. When the rendering of any page of an opened document fails, the
  whole call fails and returns no page list; the error is the base class
  \<open>PDFProcessingError\<close>, with the message of the first page that failed after the prefix
  \<open>Failed to extract pages from PDF:\<close>.
\<close>

theorem extract_fails_whole_call:
  assumes "lib file_content = Inr doc"
      and "p \<in> set doc" and "isl (render self p)"
  shows "\<exists>e. find isl (map (render self) doc) = Some (Inl e)
           \<and> snd (extract_pages_as_images self lib file_content) =
               Inl (PDFProcessingError (''Failed to extract pages from PDF: '' @ e) None)"
proof -
  from assms(2,3) have "\<not> list_all (\<lambda>x. \<not> isl x) (map (render self) doc)"
    by (auto simp: list_all_iff)
  with find_isl_cases[of "map (render self) doc"]
  obtain e where e: "find isl (map (render self) doc) = Some (Inl e)" by blast
  from extract_fail[of lib file_content doc self e] assms(1) e show ?thesis by blast
qed

theorem extract_fails_whole_call_witness:
  "example_library [37, 80, 68, 70, 0] = Inr second_page_broken
   \<and> broken_page \<in> set second_page_broken
   \<and> isl (render example_processor broken_page)
   \<and> (\<exists>e. find isl (map (render example_processor) second_page_broken) = Some (Inl e)
           \<and> snd (extract_pages_as_images example_processor example_library
                     [37, 80, 68, 70, 0]) =
               Inl (PDFProcessingError (''Failed to extract pages from PDF: '' @ e) None))"
proof -
  have a: "example_library [37, 80, 68, 70, 0] = Inr second_page_broken"
    by (simp add: example_library_def)
  have b: "broken_page \<in> set second_page_broken"
    by (simp add: second_page_broken_def)
  have c: "isl (render example_processor broken_page)"
    by (simp add: render_def broken_page_def)
  from extract_fails_whole_call[where lib = example_library
        and file_content = "[37, 80, 68, 70, 0]" and doc = second_page_broken
        and p = broken_page and self = example_processor] a b c
  show ?thesis by blast
qed

text \<open>
  Claim C6 as stated names the invalid-document error, which is \<open>InvalidFileError\<close> in
  the code. The document whose second page does not render fails with the base class
  instead.
\<close>

theorem extract_failure_class_counterexample:
  "example_library [37, 80, 68, 70, 0] = Inr second_page_broken
   \<and> isl (render example_processor (second_page_broken ! 1))
   \<and> snd (extract_pages_as_images example_processor example_library [37, 80, 68, 70, 0]) =
       Inl (PDFProcessingError ''Failed to extract pages from PDF: cannot render page'' None)
   \<and> \<not> is_InvalidFileError
         (PDFProcessingError ''Failed to extract pages from PDF: cannot render page'' None)"
  by (simp add: example_defs extract_pages_as_images_def page_count_def upt_rec Let_def)

text \<open>
  Claim C7. A payload longer than \<open>max_file_size\<close> is to fail with the size error
  (\<open>FileSizeError\<close>, documented as raised when the file size exceeds the limits), before
  the payload is opened or any page is rendered. At a payload of six bytes under a limit
  of five, \<open>validate_pdf\<close> fails before any call to the PDF library, as claimed, but
  raises the base class \<open>PDFProcessingError\<close>: \<open>FileSizeError\<close> is raised nowhere.
\<close>

theorem validate_pdf_oversize_raises_base_class:
  "validate_pdf example_settings example_library [37, 80, 68, 70, 0, 0] =
     ([], Inl (PDFProcessingError ''File size exceeds maximum allowed size of 5 bytes'' None))
   \<and> \<not> is_FileSizeError
         (PDFProcessingError ''File size exceeds maximum allowed size of 5 bytes'' None)"
  by (simp add: validate_pdf_def example_settings_def str_int_def str_nat.simps digit_char_def)

text \<open>
  Claim C8, as amended. For a payload within the size limit that cannot be opened as a
  PDF, or that opens to a document of zero pages, \<open>process_pdf_stream\<close> fails with
  \<open>InvalidFileError\<close> after the one attempt to open it; the endpoint then returns an error
  and no response, and has posted nothing to the completion service.
\<close>

theorem unparsable_or_empty_rejected:
  assumes "int (length (upload req)) \<le> max_file_size settings"
      and "fitz_open w (upload req) = Inl e \<and> m = e
           \<or> fitz_open w (upload req) = Inr [] \<and> m = ''PDF file contains no pages''"
  shows "process_pdf_stream settings pp (fitz_open w) (upload req) =
           ([FitzOpen (upload req)], Inl (InvalidFileError (''Invalid PDF file: '' @ m) None))
         \<and> (\<exists>effects exn. process_pdf settings w req pp client = Some (effects, Inl exn)
               \<and> filter is_HttpPost effects = [])"
proof -
  have v: "validate_pdf settings (fitz_open w) (upload req) =
             ([FitzOpen (upload req)], Inl (InvalidFileError (''Invalid PDF file: '' @ m) None))"
    using assms validate_pdf_unparsable[of "upload req" settings "fitz_open w" e]
      validate_pdf_no_pages[of "upload req" settings "fitz_open w"]
    by auto
  then have s: "process_pdf_stream settings pp (fitz_open w) (upload req) =
           ([FitzOpen (upload req)], Inl (InvalidFileError (''Invalid PDF file: '' @ m) None))"
    by (simp add: process_pdf_stream_def)
  have "\<exists>effects exn. process_pdf settings w req pp client = Some (effects, Inl exn)
               \<and> filter is_HttpPost effects = []"
    using s by (simp add: process_pdf_def process_pdf_try_def split: option.splits)
  with s show ?thesis by simp
qed

text \<open>The empty document of the example.\<close>

theorem unparsable_or_empty_rejected_witness:
  "int (length (upload (example_upload [37, 80]))) \<le> max_file_size example_settings
   \<and> fitz_open example_world (upload (example_upload [37, 80])) = Inr []
   \<and> process_pdf_stream example_settings example_processor (fitz_open example_world)
         (upload (example_upload [37, 80])) =
       ([FitzOpen [37, 80]],
        Inl (InvalidFileError ''Invalid PDF file: PDF file contains no pages'' None))
   \<and> (\<exists>effects exn.
         process_pdf example_settings example_world (example_upload [37, 80])
           example_processor example_client = Some (effects, Inl exn)
         \<and> filter is_HttpPost effects = [])"
proof -
  have a: "int (length (upload (example_upload [37, 80]))) \<le> max_file_size example_settings"
    by (simp add: example_upload_def example_settings_def)
  have b: "fitz_open example_world (upload (example_upload [37, 80])) = Inr []"
    by (simp add: example_upload_def example_world_def example_library_def)
  from unparsable_or_empty_rejected[where req = "example_upload [37, 80]"
        and settings = example_settings and w = example_world
        and m = "''PDF file contains no pages''" and pp = example_processor
        and client = example_client] a b
  show ?thesis by (simp add: example_upload_def)
qed

text \<open>
  Claim C8 as stated covers every payload that cannot be opened. One that is also longer
  than the size limit is rejected by the size check first, with \<open>PDFProcessingError\<close>.
\<close>

theorem zero_pages_oversize_counterexample:
  "example_library [0, 0, 0, 0, 0, 0] = Inl ''cannot open broken document''
   \<and> process_pdf_stream example_settings example_processor example_library [0, 0, 0, 0, 0, 0] =
       ([], Inl (PDFProcessingError ''File size exceeds maximum allowed size of 5 bytes'' None))
   \<and> \<not> is_InvalidFileError
         (PDFProcessingError ''File size exceeds maximum allowed size of 5 bytes'' None)"
  by (simp add: process_pdf_stream_def validate_pdf_def example_settings_def example_library_def
      str_int_def str_nat.simps digit_char_def)

section \<open>Gathering the tasks\<close>

lemma fold_slots:
  "fold (\<lambda>i slots. if i < length slots then slots[i := Some (tasks ! i)] else slots) order
     (map (slot_of tasks S) [0..<n]) =
   map (slot_of tasks (S \<union> set order)) [0..<n]"
proof (induction order arbitrary: S)
  case Nil
  then show ?case by simp
next
  case (Cons i order)
  have "(if i < n then (map (slot_of tasks S) [0..<n])[i := Some (tasks ! i)]
         else map (slot_of tasks S) [0..<n]) = map (slot_of tasks (insert i S)) [0..<n]"
  proof (cases "i < n")
    case True
    then show ?thesis
      by (intro nth_equalityI) (auto simp: slot_of_def nth_list_update)
  next
    case False
    then show ?thesis by (auto simp: slot_of_def)
  qed
  then show ?case using Cons.IH[of "insert i S"] by simp
qed

lemma those_map_Some: "those (map Some xs) = Some xs"
  by (induction xs) auto

lemma those_Some_D: "those xs = Some ys \<Longrightarrow> xs = map Some ys"
  by (induction xs arbitrary: ys) (auto split: option.splits)

lemma gather_slots:
  "gather order tasks = those (map (slot_of tasks (set order)) [0..<length tasks])"
proof -
  have "replicate (length tasks) None = map (slot_of tasks {}) [0..<length tasks]"
    by (rule nth_equalityI) (auto simp: slot_of_def)
  then show ?thesis
    using fold_slots[of tasks order "{}" "length tasks"] by (simp add: gather_def)
qed

lemma gather_complete:
  assumes "{0..<length tasks} \<subseteq> set order"
  shows "gather order tasks = Some tasks"
proof -
  have "map (slot_of tasks (set order)) [0..<length tasks] = map Some tasks"
    using assms by (intro nth_equalityI) (auto simp: slot_of_def)
  then show ?thesis by (simp add: gather_slots those_map_Some)
qed

lemma gather_Some:
  assumes "gather order tasks = Some rs"
  shows "rs = tasks \<and> {0..<length tasks} \<subseteq> set order"
proof -
  from assms have eq: "map (slot_of tasks (set order)) [0..<length tasks] = map Some rs"
    by (simp add: gather_slots those_Some_D)
  then have len: "length rs = length tasks"
    by (metis length_map length_upt minus_nat.diff_0)
  have *: "\<And>j. j < length tasks \<Longrightarrow> slot_of tasks (set order) j = Some (rs ! j)"
  proof -
    fix j assume j: "j < length tasks"
    then have "map (slot_of tasks (set order)) [0..<length tasks] ! j = map Some rs ! j"
      using eq by simp
    with j len show "slot_of tasks (set order) j = Some (rs ! j)" by simp
  qed
  have "rs = tasks"
  proof (rule nth_equalityI)
    show "length rs = length tasks" by (rule len)
  next
    fix j assume "j < length rs"
    with len * [of j] show "rs ! j = tasks ! j"
      by (auto simp: slot_of_def split: if_splits)
  qed
  moreover have "{0..<length tasks} \<subseteq> set order"
  proof
    fix j assume "j \<in> {0..<length tasks}"
    with * [of j] show "j \<in> set order"
      by (auto simp: slot_of_def split: if_splits)
  qed
  ultimately show ?thesis by simp
qed

lemma sort_upt_covers:
  assumes "sort order = [0..<n]"
  shows "{0..<n} \<subseteq> set order"
proof -
  have "set order = set (sort order)" by simp
  also have "\<dots> = {0..<n}" using assms by simp
  finally show ?thesis by simp
qed

lemma enumerate_map_nth:
  "map f (enumerate 0 xs) = map (\<lambda>i. f (i, xs ! i)) [0..<length xs]"
  by (rule nth_equalityI) (auto simp: nth_enumerate_eq)

lemma process_image_effects:
  "fst (process_image self str image_data page_num meta xch) =
     [post_of self (page_num, image_data, meta)]"
  by (simp add: process_image_def post_of_def Let_def)

lemma process_batch_Some:
  assumes "{0..<length pages_data} \<subseteq> set order"
  shows "process_batch self str exch order pages_data =
           Some (map (post_of self) pages_data,
                 map (\<lambda>i. outcome_of self str (exch i) (pages_data ! i))
                   [0..<length pages_data])"
proof -
  let ?tasks = "map (\<lambda>(i, (page_num, image_data, metadata)).
                   process_single_page self str page_num image_data metadata (exch i))
              (enumerate 0 pages_data)"
  have len: "length ?tasks = length pages_data" by simp
  have g: "gather order (map snd ?tasks) = Some (map snd ?tasks)"
    using assms by (intro gather_complete) simp
  have eff: "concat (map fst ?tasks) = map (post_of self) pages_data"
  proof -
    have "map fst ?tasks = map (\<lambda>p. [post_of self p]) pages_data"
      by (rule nth_equalityI)
         (auto simp: nth_enumerate_eq process_single_page_def process_image_def post_of_def
            Let_def split: prod.splits)
    then show ?thesis by (simp add: concat_map_singleton)
  qed
  have outs: "map (\<lambda>(i, result).
                 case result of
                   Inl e \<Rightarrow>
                     (fst (pages_data ! i), JDict [], snd (snd (pages_data ! i)),
                      Some (message e))
                 | Inr (page_num, api_response, updated_metadata) \<Rightarrow>
                     (page_num, api_response, updated_metadata, None))
            (enumerate 0 (map snd ?tasks)) =
         map (\<lambda>i. outcome_of self str (exch i) (pages_data ! i)) [0..<length pages_data]"
    by (rule nth_equalityI)
       (auto simp: nth_enumerate_eq process_single_page_def outcome_of_def
          split: prod.splits sum.splits)
  show ?thesis
    unfolding process_batch_def Let_def g using eff outs by simp
qed

lemma process_batch_Some_D:
  assumes "process_batch self str exch order pages_data = Some r"
  shows "{0..<length pages_data} \<subseteq> set order"
proof -
  from assms obtain rs where
    "gather order (map snd (map (\<lambda>(i, (page_num, image_data, metadata)).
                   process_single_page self str page_num image_data metadata (exch i))
              (enumerate 0 pages_data))) = Some rs"
    by (auto simp: process_batch_def Let_def split: option.splits)
  from gather_Some[OF this] show ?thesis by simp
qed


section \<open>One call to the service\<close>

lemma read_response_bad_status:
  "status \<noteq> 200 \<Longrightarrow> \<exists>m. read_response str meta status body t = Inl (OtherException m)"
  by (cases body; cases "dict_get body ''error'' (JDict [])")
     (auto simp: read_response_def split: sum.splits json.splits option.splits
        elim!: dict_get.elims)

lemma process_image_Inl:
  assumes "snd (process_image self str image_data page_num meta xch) = Inl e"
  shows "\<exists>m. e = APICallError m None \<and> m \<noteq> []"
  using assms
  by (auto simp: process_image_def Let_def split: exchange.splits sum.splits raised.splits)

lemma process_image_Raises:
  "\<exists>m. snd (process_image self str image_data page_num meta (Raises r)) =
         Inl (APICallError m None) \<and> m \<noteq> []"
  by (cases r) (auto simp: process_image_def Let_def)

lemma process_image_bad_status:
  assumes "status \<noteq> 200"
  shows "\<exists>m. snd (process_image self str image_data page_num meta (Responds status body t)) =
           Inl (APICallError (''Unexpected error during API request: '' @ m) None)"
proof -
  from read_response_bad_status[OF assms, of str meta body t]
  obtain m where "read_response str meta status body t = Inl (OtherException m)" ..
  then show ?thesis by (simp add: process_image_def Let_def)
qed

lemma outcome_of_failure:
  assumes "snd (process_image self str image_data page_num meta xch) = Inl e"
  shows "outcome_of self str xch (page_num, image_data, meta) =
           (page_num, JDict [], meta, Some (message e)) \<and> message e \<noteq> []"
  using assms process_image_Inl[OF assms] by (auto simp: outcome_of_def)

lemma outcome_of_page_num: "fst (outcome_of self str xch page) = fst page"
  by (cases page) (auto simp: outcome_of_def split: sum.splits prod.splits)

lemma outcome_of_error_nonempty:
  "snd (snd (snd (outcome_of self str xch page))) \<noteq> Some []"
proof (cases page)
  case (fields page_num image_data meta)
  show ?thesis
  proof (cases "snd (process_image self str image_data page_num meta xch)")
    case (Inl e)
    from outcome_of_failure[OF this] fields show ?thesis by simp
  next
    case (Inr r)
    with fields show ?thesis by (cases r) (simp add: outcome_of_def)
  qed
qed

section \<open>Building the response\<close>

lemma collect_Inr:
  "collect xs rs es n = Inr (rs', es', n') \<Longrightarrow>
     \<exists>new. rs' = rs @ new \<and> length new = length xs
        \<and> map page_number new = map fst xs
        \<and> map error new = map (\<lambda>(pn, out, m, e). reported_error e) xs
        \<and> map metadata new = map (\<lambda>(pn, out, m, e). Some m) xs
        \<and> es' = es @ map error_line (filter (\<lambda>r. error r \<noteq> None) new)
        \<and> n' = n + int (length (filter (\<lambda>r. error r = None) new))"
proof (induction xs arbitrary: rs es n)
  case Nil
  then show ?case by simp
next
  case (Cons x xs)
  obtain pn out m e where x: "x = (pn, out, m, e)" by (cases x) auto
  show ?case
  proof (cases "reported_error e")
    case None
    with Cons.prems x obtain r where
      r: "PageResult_init pn out (Some m) None = Inr r"
      and rest: "collect xs (rs @ [r]) es (n + 1) = Inr (rs', es', n')"
      by (auto simp: reported_error_def split: option.splits if_splits sum.splits)
    from r have rf: "page_number r = pn" "error r = None" "metadata r = Some m"
      by (auto simp: PageResult_init_def split: if_splits json.splits)
    from Cons.IH[OF rest] obtain new where
      "rs' = (rs @ [r]) @ new" "length new = length xs"
      "map page_number new = map fst xs"
      "map error new = map (\<lambda>(pn, out, m, e). reported_error e) xs"
      "map metadata new = map (\<lambda>(pn, out, m, e). Some m) xs"
      "es' = es @ map error_line (filter (\<lambda>r. error r \<noteq> None) new)"
      "n' = (n + 1) + int (length (filter (\<lambda>r. error r = None) new))"
      by blast
    with rf None x show ?thesis
      by (intro exI[of _ "r # new"]) simp
  next
    case (Some msg)
    with Cons.prems x obtain r where
      r: "PageResult_init pn (JDict []) (Some m) e = Inr r"
      and rest: "collect xs (rs @ [r]) (es @ [''Page '' @ str_int pn @ '': '' @ msg]) n
                   = Inr (rs', es', n')"
      by (auto simp: reported_error_def split: option.splits if_splits sum.splits)
    from Some have e: "e = Some msg"
      by (auto simp: reported_error_def split: option.splits if_splits)
    from r e have rf: "page_number r = pn" "error r = Some msg" "metadata r = Some m"
      by (auto simp: PageResult_init_def split: if_splits)
    from Cons.IH[OF rest] obtain new where
      "rs' = (rs @ [r]) @ new" "length new = length xs"
      "map page_number new = map fst xs"
      "map error new = map (\<lambda>(pn, out, m, e). reported_error e) xs"
      "map metadata new = map (\<lambda>(pn, out, m, e). Some m) xs"
      "es' = (es @ [''Page '' @ str_int pn @ '': '' @ msg])
               @ map error_line (filter (\<lambda>r. error r \<noteq> None) new)"
      "n' = n + int (length (filter (\<lambda>r. error r = None) new))"
      by blast
    with rf Some x show ?thesis
      by (intro exI[of _ "r # new"]) (simp add: error_line_def)
  qed
qed


lemma process_pdf_Inr_D:
  assumes "process_pdf settings w req pp client = Some (effects, Inr rep)"
  shows "\<exists>e1 pages_data e2 outs rs es n.
           process_pdf_stream settings pp (fitz_open w) (upload req) = (e1, Inr pages_data)
         \<and> pages_data \<noteq> []
         \<and> process_batch client (py_str w) (exchanges w) (completion w) pages_data
               = Some (e2, outs)
         \<and> collect outs [] [] 0 = Inr (rs, es, n)
         \<and> effects = e1 @ e2
         \<and> rep = \<lparr>success = (es = []), total_pages = int (length pages_data),
                   processed_pages = n, results = rs, processing_time_total = elapsed w,
                   timestamp = utcnow w, errors = (if es = [] then None else Some es)\<rparr>"
proof -
  from assms have t: "process_pdf_try settings w req pp client = Some (effects, Inr rep)"
    by (auto simp: process_pdf_def split: option.splits sum.splits endpoint_raise.splits)
  then obtain name where "filename req = Some name" "endswith (lower name) ''.pdf''"
    by (auto simp: process_pdf_try_def split: option.splits if_splits)
  with t obtain e1 pages_data where
    st: "process_pdf_stream settings pp (fitz_open w) (upload req) = (e1, Inr pages_data)"
    and ne: "pages_data \<noteq> []"
    and rest: "(case process_batch client (py_str w) (exchanges w) (completion w) pages_data of
                 None \<Rightarrow> None
               | Some (effects', api_results) \<Rightarrow>
                   Some (e1 @ effects',
                         case collect api_results [] [] 0 of
                           Inl v \<Rightarrow> Inl v
                         | Inr (results', errors', processed_count) \<Rightarrow>
                             Inr \<lparr>success = (length errors' = 0),
                                  total_pages = int (length pages_data),
                                  processed_pages = processed_count,
                                  results = results',
                                  processing_time_total = elapsed w,
                                  timestamp = utcnow w,
                                  errors = (if errors' = [] then None else Some errors')\<rparr>))
               = Some (effects, Inr rep)"
    by (auto simp: process_pdf_try_def split: prod.splits sum.splits if_splits)
  from rest obtain e2 outs where
    b: "process_batch client (py_str w) (exchanges w) (completion w) pages_data
          = Some (e2, outs)"
    by (auto split: option.splits)
  with rest obtain rs es n where
    c: "collect outs [] [] 0 = Inr (rs, es, n)"
    by (auto split: sum.splits)
  from rest b c have "effects = e1 @ e2"
    and "rep = \<lparr>success = (es = []), total_pages = int (length pages_data),
                   processed_pages = n, results = rs, processing_time_total = elapsed w,
                   timestamp = utcnow w, errors = (if es = [] then None else Some es)\<rparr>"
    by auto
  with st ne b c show ?thesis by blast
qed

lemma process_batch_outs:
  assumes "process_batch self str exch order pages_data = Some (effects, outs)"
  shows "effects = map (post_of self) pages_data"
    and "outs = map (\<lambda>i. outcome_of self str (exch i) (pages_data ! i))
                  [0..<length pages_data]"
  using process_batch_Some[OF process_batch_Some_D[OF assms], of self str exch] assms
  by simp_all

lemma reported_error_outcome:
  "(\<lambda>(pn, out, m, e). reported_error e) (outcome_of self str xch page) =
     snd (snd (snd (outcome_of self str xch page)))"
  using outcome_of_error_nonempty[of self str xch page]
  by (cases "outcome_of self str xch page")
     (auto simp: reported_error_def split: option.splits)

lemma filter_error_line_empty:
  "(map error_line (filter (\<lambda>r. error r \<noteq> None) rs) = []) =
     list_all (\<lambda>r. error r = None) rs"
  by (induction rs) auto

section \<open>The example, run\<close>

lemma example_stream:
  "process_pdf_stream example_settings example_processor example_library [37, 80, 68, 70] =
     ([FitzOpen [37, 80, 68, 70], FitzOpen [37, 80, 68, 70], RenderPage 0, RenderPage 1,
       RenderPage 2], Inr example_pages)"
  by (simp add: process_pdf_stream_def validate_pdf_def extract_pages_as_images_def
      page_count_def example_defs example_pages_def example_meta_def upt_rec Let_def)

lemma example_outcome_0:
  "outcome_of example_client example_str (example_exchanges 0) (1, [77], example_meta 1) =
     (1, example_body, example_updated 1, None)"
  by (simp add: outcome_of_def process_image_def read_response_def example_exchanges_def
      example_body_def example_meta_def example_updated_def Let_def)

lemma example_outcome_1:
  "outcome_of example_client example_str (example_exchanges 1) (2, [77, 97], example_meta 2) =
     (2, JDict [], example_meta 2, Some ''API request timed out after 30 seconds'')"
  by (simp add: outcome_of_def process_image_def example_exchanges_def example_client_def
      str_int_def str_nat.simps digit_char_def Let_def)

lemma example_outcome_2:
  "outcome_of example_client example_str (example_exchanges 2)
     (3, [77, 97, 110], example_meta 3) =
     (3, example_body, example_updated 3, None)"
  by (simp add: outcome_of_def process_image_def read_response_def example_exchanges_def
      example_body_def example_meta_def example_updated_def Let_def)

lemma example_batch:
  "process_batch example_client (py_str example_world) (exchanges example_world)
     (completion example_world) example_pages =
     Some (map (post_of example_client) example_pages, example_outs)"
proof -
  have len: "length example_pages = 3" by (simp add: example_pages_def)
  have cover: "{0..<length example_pages} \<subseteq> set [2, 0, 1]"
    unfolding len by auto
  have idx: "[0..<3] = [0, 1, 2]" by (simp add: upt_rec)
  have "map (\<lambda>i. outcome_of example_client example_str (example_exchanges i)
               (example_pages ! i)) [0..<length example_pages] = example_outs"
    unfolding len idx
    using example_outcome_0 example_outcome_1 example_outcome_2
    by (simp add: example_pages_def example_outs_def)
  with process_batch_Some[OF cover, of example_client example_str example_exchanges]
  show ?thesis by (simp add: example_world_def)
qed

lemma example_world_fields:
  "fitz_open example_world = example_library" "elapsed example_world = 7"
  "utcnow example_world = 1700000000"
  by (simp_all add: example_world_def)

lemma example_collect:
  "collect example_outs [] [] 0 =
     Inr (results example_report, [''Page 2: API request timed out after 30 seconds''], 2)"
  by (simp add: example_outs_def example_report_def example_body_def PageResult_init_def
      str_int_def str_nat.simps digit_char_def)

lemma example_run:
  "process_pdf example_settings example_world (example_upload [37, 80, 68, 70])
     example_processor example_client = Some (example_effects, Inr example_report)"
proof -
  have name: "endswith (lower ''Invoice.PDF'') ''.pdf''"
    by (simp add: endswith_def lower_def lower_char_def)
  have ne: "example_pages \<noteq> []" and len: "length example_pages = 3"
    by (simp_all add: example_pages_def)
  have "process_pdf_try example_settings example_world (example_upload [37, 80, 68, 70])
          example_processor example_client = Some (example_effects, Inr example_report)"
    using name ne len
    by (simp add: process_pdf_try_def example_upload_def example_world_fields
        example_stream example_batch example_collect example_effects_def)
       (simp add: example_report_def)
  then show ?thesis by (simp add: process_pdf_def)
qed


section \<open>Properties of the response\<close>

text \<open>
  Claim C1. Whenever the endpoint returns a response, the payload opened to a document,
  \<open>process_batch\<close> returned outcomes for its pages, and the response has one result per
  page of the document (\<open>total_pages\<close> is the page count); a result carries an error exactly
  when the outcome of its page does; \<open>success\<close> holds iff no result carries an error;
  \<open>processed_pages\<close> counts the results without error; \<open>errors\<close> is null when there is no
  failure and otherwise holds one line per failed page, in page order.
\<close>

theorem report_invariants:
  assumes "process_pdf settings w req pp client = Some (effects, Inr rep)"
  shows "\<exists>doc e2 outs.
           fitz_open w (upload req) = Inr doc
         \<and> process_batch client (py_str w) (exchanges w) (completion w)
               (map (page_record pp doc) [0..<page_count doc]) = Some (e2, outs)
         \<and> length (results rep) = page_count doc
         \<and> total_pages rep = int (page_count doc)
         \<and> map error (results rep) = map (\<lambda>(pn, out, m, e). e) outs
         \<and> success rep = list_all (\<lambda>r. error r = None) (results rep)
         \<and> processed_pages rep = int (length (filter (\<lambda>r. error r = None) (results rep)))
         \<and> errors rep =
              (if list_all (\<lambda>r. error r = None) (results rep) then None
               else Some (map error_line (filter (\<lambda>r. error r \<noteq> None) (results rep))))"
proof -
  from process_pdf_Inr_D[OF assms] obtain e1 pages_data e2 outs rs es n where
    st: "process_pdf_stream settings pp (fitz_open w) (upload req) = (e1, Inr pages_data)"
    and b: "process_batch client (py_str w) (exchanges w) (completion w) pages_data
              = Some (e2, outs)"
    and c: "collect outs [] [] 0 = Inr (rs, es, n)"
    and rep: "rep = \<lparr>success = (es = []), total_pages = int (length pages_data),
                   processed_pages = n, results = rs, processing_time_total = elapsed w,
                   timestamp = utcnow w, errors = (if es = [] then None else Some es)\<rparr>"
    by blast
  from process_pdf_stream_Inr[OF st] obtain doc where
    doc: "fitz_open w (upload req) = Inr doc"
    and pd: "pages_data = map (page_record pp doc) [0..<page_count doc]"
    by blast
  from pd have len: "length pages_data = page_count doc" by simp
  from process_batch_outs(2)[OF b]
  have outs: "outs = map (\<lambda>i. outcome_of client (py_str w) (exchanges w i) (pages_data ! i))
                       [0..<length pages_data]" .
  from collect_Inr[OF c] have
    l: "length rs = length outs"
    and er: "map error rs = map (\<lambda>(pn, out, m, e). reported_error e) outs"
    and es: "es = map error_line (filter (\<lambda>r. error r \<noteq> None) rs)"
    and n: "n = int (length (filter (\<lambda>r. error r = None) rs))"
    by auto
  have "map (\<lambda>(pn, out, m, e). reported_error e) outs = map (\<lambda>(pn, out, m, e). e) outs"
    unfolding outs using reported_error_outcome[of client "py_str w"]
    by (auto simp: split_beta)
  with er have er': "map error rs = map (\<lambda>(pn, out, m, e). e) outs" by simp
  from outs have lo: "length outs = length pages_data" by simp
  have "fitz_open w (upload req) = Inr doc
         \<and> process_batch client (py_str w) (exchanges w) (completion w)
               (map (page_record pp doc) [0..<page_count doc]) = Some (e2, outs)
         \<and> length (results rep) = page_count doc
         \<and> total_pages rep = int (page_count doc)
         \<and> map error (results rep) = map (\<lambda>(pn, out, m, e). e) outs
         \<and> success rep = list_all (\<lambda>r. error r = None) (results rep)
         \<and> processed_pages rep = int (length (filter (\<lambda>r. error r = None) (results rep)))
         \<and> errors rep =
              (if list_all (\<lambda>r. error r = None) (results rep) then None
               else Some (map error_line (filter (\<lambda>r. error r \<noteq> None) (results rep))))"
    using doc b pd len l lo er' n es filter_error_line_empty[of rs]
    by (simp add: rep)
  then show ?thesis by blast
qed


text \<open>The example: three pages, the second of which times out.\<close>

theorem report_invariants_witness:
  "process_pdf example_settings example_world (example_upload [37, 80, 68, 70])
     example_processor example_client = Some (example_effects, Inr example_report)
   \<and> (\<exists>doc e2 outs.
         fitz_open example_world (upload (example_upload [37, 80, 68, 70])) = Inr doc
       \<and> process_batch example_client (py_str example_world) (exchanges example_world)
             (completion example_world)
             (map (page_record example_processor doc) [0..<page_count doc]) = Some (e2, outs)
       \<and> length (results example_report) = page_count doc
       \<and> total_pages example_report = int (page_count doc)
       \<and> map error (results example_report) = map (\<lambda>(pn, out, m, e). e) outs
       \<and> success example_report = list_all (\<lambda>r. error r = None) (results example_report)
       \<and> processed_pages example_report =
            int (length (filter (\<lambda>r. error r = None) (results example_report)))
       \<and> errors example_report =
            (if list_all (\<lambda>r. error r = None) (results example_report) then None
             else Some (map error_line
                          (filter (\<lambda>r. error r \<noteq> None) (results example_report)))))"
  using report_invariants[OF example_run] example_run by blast


lemma process_pdf_name:
  assumes "process_pdf settings w req pp client = Some (effects, Inr rep)"
  shows "\<exists>name. filename req = Some name \<and> endswith (lower name) ''.pdf''"
proof -
  from assms have t: "process_pdf_try settings w req pp client = Some (effects, Inr rep)"
    by (auto simp: process_pdf_def split: option.splits sum.splits endpoint_raise.splits)
  then show ?thesis
    by (auto simp: process_pdf_try_def split: option.splits if_splits)
qed

lemma process_batch_order_irrelevant:
  assumes "process_batch self str exch order pages_data = Some r"
      and "sort order' = [0..<length pages_data]"
  shows "process_batch self str exch order' pages_data = Some r"
proof -
  obtain effects outs where r: "r = (effects, outs)" by (cases r)
  from process_batch_outs[of self str exch order pages_data effects outs] assms(1) r
  have "r = (map (post_of self) pages_data,
             map (\<lambda>i. outcome_of self str (exch i) (pages_data ! i)) [0..<length pages_data])"
    by simp
  with process_batch_Some[OF sort_upt_covers[OF assms(2)], of self str exch]
  show ?thesis by simp
qed

text \<open>
  Claim C3. The results of the response are in page order, \<open>1..P\<close>, whatever the order in
  which the calls complete: a response obtained under one completion order is the response
  under every other order of the same tasks, also one in which later pages complete first.
  The code has no sorting step; \<open>asyncio.gather\<close> stores each result at the position of
  its task, and the pages were extracted in index order.
\<close>

theorem report_in_page_order:
  assumes "process_pdf settings w req pp client = Some (effects, Inr rep)"
      and "sort order = [0..<length (results rep)]"
  shows "map page_number (results rep) = [1..int (length (results rep))]
         \<and> sorted_wrt (<) (map page_number (results rep))
         \<and> process_pdf settings (w\<lparr>completion := order\<rparr>) req pp client
              = Some (effects, Inr rep)"
proof -
  from process_pdf_Inr_D[OF assms(1)] obtain e1 pages_data e2 outs rs es n where
    st: "process_pdf_stream settings pp (fitz_open w) (upload req) = (e1, Inr pages_data)"
    and ne: "pages_data \<noteq> []"
    and b: "process_batch client (py_str w) (exchanges w) (completion w) pages_data
              = Some (e2, outs)"
    and c: "collect outs [] [] 0 = Inr (rs, es, n)"
    and eff: "effects = e1 @ e2"
    and rep: "rep = \<lparr>success = (es = []), total_pages = int (length pages_data),
                   processed_pages = n, results = rs, processing_time_total = elapsed w,
                   timestamp = utcnow w, errors = (if es = [] then None else Some es)\<rparr>"
    by blast
  from process_pdf_name[OF assms(1)] obtain name where
    name: "filename req = Some name" "endswith (lower name) ''.pdf''" by blast
  from process_pdf_stream_Inr[OF st] obtain doc where
    pd: "pages_data = map (page_record pp doc) [0..<page_count doc]"
    by blast
  from process_batch_outs(2)[OF b]
  have outs: "outs = map (\<lambda>i. outcome_of client (py_str w) (exchanges w i) (pages_data ! i))
                       [0..<length pages_data]" .
  from collect_Inr[OF c] have
    l: "length rs = length outs" and pn: "map page_number rs = map fst outs"
    by auto
  have "map fst outs = map fst pages_data"
    unfolding outs by (rule nth_equalityI) (auto simp: outcome_of_page_num)
  also have "\<dots> = [1..int (page_count doc)]"
    unfolding pd by (simp only: map_fst_page_record upto_as_map)
  finally have idx: "map fst outs = [1..int (page_count doc)]" .
  from outs pd have len: "length outs = page_count doc" by simp
  have 1: "map page_number (results rep) = [1..int (length (results rep))]"
    using pn idx l len by (simp add: rep)
  have 2: "sorted_wrt (<) (map page_number (results rep))"
    unfolding 1 by simp
  from assms(2) l outs have "sort order = [0..<length pages_data]"
    by (simp add: rep)
  from process_batch_order_irrelevant[OF b this]
  have b': "process_batch client (py_str w) (exchanges w) order pages_data = Some (e2, outs)" .
  have "process_pdf_try settings (w\<lparr>completion := order\<rparr>) req pp client
          = Some (effects, Inr rep)"
    using name st ne b' c by (simp add: process_pdf_try_def eff rep)
  then have 3: "process_pdf settings (w\<lparr>completion := order\<rparr>) req pp client
              = Some (effects, Inr rep)"
    by (simp add: process_pdf_def)
  from 1 2 3 show ?thesis by simp
qed

text \<open>
  The example, where the third task completes first: the response is the same when the
  second task completes first.
\<close>

theorem report_in_page_order_witness:
  "process_pdf example_settings example_world (example_upload [37, 80, 68, 70])
     example_processor example_client = Some (example_effects, Inr example_report)
   \<and> completion example_world = [2, 0, 1]
   \<and> sort [1, 2, 0] = [0..<length (results example_report)]
   \<and> map page_number (results example_report) = [1, 2, 3]
   \<and> process_pdf example_settings (example_world\<lparr>completion := [1, 2, 0]\<rparr>)
        (example_upload [37, 80, 68, 70]) example_processor example_client
        = Some (example_effects, Inr example_report)"
proof -
  have s: "sort [1, 2, 0] = [0..<length (results example_report)]"
    by (simp add: example_report_def upt_rec)
  have c: "completion example_world = [2, 0, 1]"
    by (simp add: example_world_def)
  have l: "length (results example_report) = 3"
    by (simp add: example_report_def)
  from report_in_page_order[OF example_run s] example_run s c show ?thesis
    by (simp add: l upto_rec1)
qed

section \<open>Properties of the dispatch\<close>

text \<open>
  Claim C2. For every batch and every completion order of its tasks, \<open>process_batch\<close>
  returns normally with one outcome per page. The outcome of a page is made from that
  page and the service's answer to its own request alone. A timeout, a transport error,
  any other exception of the exchange (an unparsable body among them) and a status other
  than 200 give a failure outcome with the page's number, an empty output and a message
  that is not empty. Whatever the service answers to the other pages, the outcome of a
  page stays the same.
\<close>

theorem page_failures_stay_local:
  assumes "sort order = [0..<length pages_data]"
  shows "\<exists>outs.
           process_batch self str exch order pages_data
             = Some (map (post_of self) pages_data, outs)
         \<and> length outs = length pages_data
         \<and> (\<forall>i<length pages_data. outs ! i = outcome_of self str (exch i) (pages_data ! i))
         \<and> (\<forall>i<length pages_data.
               (\<exists>r. exch i = Raises r)
               \<or> (\<exists>status body t. exch i = Responds status body t \<and> status \<noteq> 200) \<longrightarrow>
               (\<exists>m. m \<noteq> []
                  \<and> outs ! i = (fst (pages_data ! i), JDict [], snd (snd (pages_data ! i)),
                                Some m)))
         \<and> (\<forall>exch' i. i < length pages_data \<and> exch' i = exch i \<longrightarrow>
               (\<exists>outs'. process_batch self str exch' order pages_data
                           = Some (map (post_of self) pages_data, outs')
                  \<and> outs' ! i = outs ! i))"
proof -
  let ?outs = "\<lambda>x. map (\<lambda>i. outcome_of self str (x i) (pages_data ! i)) [0..<length pages_data]"
  have b: "\<And>x. process_batch self str x order pages_data
                 = Some (map (post_of self) pages_data, ?outs x)"
    using process_batch_Some[OF sort_upt_covers[OF assms]] by simp
  have fail: "\<exists>m. m \<noteq> []
                  \<and> ?outs exch ! i = (fst (pages_data ! i), JDict [], snd (snd (pages_data ! i)),
                                Some m)"
    if i: "i < length pages_data"
      and k: "(\<exists>r. exch i = Raises r)
               \<or> (\<exists>status body t. exch i = Responds status body t \<and> status \<noteq> 200)"
    for i
  proof -
    obtain page_num image_data meta where p: "pages_data ! i = (page_num, image_data, meta)"
      by (cases "pages_data ! i")
    from k obtain e where
      "snd (process_image self str image_data page_num meta (exch i)) = Inl e"
      using process_image_Raises[of self str image_data page_num meta]
        process_image_bad_status[of _ self str image_data page_num meta]
      by metis
    from outcome_of_failure[OF this] i p show ?thesis by auto
  qed
  have "process_batch self str exch order pages_data
             = Some (map (post_of self) pages_data, ?outs exch)
         \<and> length (?outs exch) = length pages_data
         \<and> (\<forall>i<length pages_data.
               ?outs exch ! i = outcome_of self str (exch i) (pages_data ! i))
         \<and> (\<forall>i<length pages_data.
               (\<exists>r. exch i = Raises r)
               \<or> (\<exists>status body t. exch i = Responds status body t \<and> status \<noteq> 200) \<longrightarrow>
               (\<exists>m. m \<noteq> []
                  \<and> ?outs exch ! i = (fst (pages_data ! i), JDict [],
                                       snd (snd (pages_data ! i)), Some m)))
         \<and> (\<forall>exch' i. i < length pages_data \<and> exch' i = exch i \<longrightarrow>
               (\<exists>outs'. process_batch self str exch' order pages_data
                           = Some (map (post_of self) pages_data, outs')
                  \<and> outs' ! i = ?outs exch ! i))"
    using b fail by (auto simp del: upt_Suc)
  then show ?thesis by blast
qed

text \<open>The example batch, whose second request times out.\<close>

theorem page_failures_stay_local_witness:
  "sort [2, 0, 1] = [0..<length example_pages]
   \<and> (\<exists>outs.
         process_batch example_client example_str example_exchanges [2, 0, 1] example_pages
           = Some (map (post_of example_client) example_pages, outs)
       \<and> length outs = length example_pages
       \<and> outs ! 1 = outcome_of example_client example_str (example_exchanges 1)
                       (example_pages ! 1)
       \<and> outs ! 1 = (2, JDict [], example_meta 2,
                      Some ''API request timed out after 30 seconds''))"
proof -
  have s: "sort [2, 0, 1] = [0..<length example_pages]"
    by (simp add: example_pages_def upt_rec)
  have l: "1 < length example_pages"
    by (simp add: example_pages_def)
  have p: "example_pages ! 1 = (2, [77, 97], example_meta 2)"
    by (simp add: example_pages_def)
  from page_failures_stay_local[OF s, of example_client example_str example_exchanges]
  obtain outs where
    "process_batch example_client example_str example_exchanges [2, 0, 1] example_pages
       = Some (map (post_of example_client) example_pages, outs)"
    "length outs = length example_pages"
    "\<forall>i<length example_pages.
       outs ! i = outcome_of example_client example_str (example_exchanges i) (example_pages ! i)"
    by blast
  with l p example_outcome_1 s show ?thesis by auto
qed

text \<open>
  Claim C10. When the call for a page fails, the outcome of the page carries the metadata
  the extraction gave the page, unchanged, and so does the result of the page in the
  response.
\<close>

theorem failed_page_metadata_unchanged:
  assumes "process_batch self str exch order pages_data = Some (effects, outs)"
      and "i < length pages_data"
      and "pages_data ! i = (page_num, image_data, meta)"
      and "snd (process_image self str image_data page_num meta (exch i)) = Inl e"
  shows "outs ! i = (page_num, JDict [], meta, Some (message e))
         \<and> (\<forall>rs es n. collect outs [] [] 0 = Inr (rs, es, n) \<longrightarrow>
               metadata (rs ! i) = Some meta \<and> error (rs ! i) = Some (message e))"
proof -
  from process_batch_outs(2)[OF assms(1)]
  have outs: "outs = map (\<lambda>i. outcome_of self str (exch i) (pages_data ! i))
                       [0..<length pages_data]" .
  with assms(2,3) outcome_of_failure[OF assms(4)]
  have o: "outs ! i = (page_num, JDict [], meta, Some (message e))" and ne: "message e \<noteq> []"
    by simp_all
  from outs assms(2) have li: "i < length outs" by simp
  have "metadata (rs ! i) = Some meta \<and> error (rs ! i) = Some (message e)"
    if c: "collect outs [] [] 0 = Inr (rs, es, n)" for rs es n
  proof -
    from collect_Inr[OF c] have
      l: "length rs = length outs"
      and er: "map error rs = map (\<lambda>(pn, out, m, e). reported_error e) outs"
      and me: "map metadata rs = map (\<lambda>(pn, out, m, e). Some m) outs"
      by auto
    from me li l have "metadata (rs ! i) = (\<lambda>(pn, out, m, e). Some m) (outs ! i)"
      by (metis nth_map)
    moreover from er li l have "error (rs ! i) = (\<lambda>(pn, out, m, e). reported_error e) (outs ! i)"
      by (metis nth_map)
    ultimately show ?thesis using o ne by (simp add: reported_error_def)
  qed
  with o show ?thesis by blast
qed

text \<open>The second page of the example.\<close>

theorem failed_page_metadata_unchanged_witness:
  "process_batch example_client (py_str example_world) (exchanges example_world)
     (completion example_world) example_pages
     = Some (map (post_of example_client) example_pages, example_outs)
   \<and> 1 < length example_pages
   \<and> example_pages ! 1 = (2, [77, 97], example_meta 2)
   \<and> snd (process_image example_client (py_str example_world) [77, 97] 2 (example_meta 2)
            (exchanges example_world 1))
       = Inl (APICallError ''API request timed out after 30 seconds'' None)
   \<and> example_outs ! 1 = (2, JDict [], example_meta 2,
                          Some ''API request timed out after 30 seconds'')
   \<and> metadata (results example_report ! 1) = Some (example_meta 2)"
proof -
  have l: "1 < length example_pages"
    by (simp add: example_pages_def)
  have p: "example_pages ! 1 = (2, [77, 97], example_meta 2)"
    by (simp add: example_pages_def)
  have f: "snd (process_image example_client (py_str example_world) [77, 97] 2 (example_meta 2)
            (exchanges example_world 1))
       = Inl (APICallError ''API request timed out after 30 seconds'' None)"
    by (simp add: process_image_def example_world_def example_exchanges_def example_client_def
        str_int_def str_nat.simps digit_char_def Let_def)
  from failed_page_metadata_unchanged[OF example_batch l p f] example_collect
    example_batch l p f
  show ?thesis by simp
qed

text \<open>
  Claim C9. The body of the request has the shape the claim gives, with the page image
  base64-encoded in a data URL. The media type of the URL is to match the configured
  image format; \<open>process_image\<close> writes \<open>image/png\<close> whatever the format is. Under the
  JPEG configuration the processor encodes the pages as JPEG, and the request for a page
  still announces PNG.
\<close>

theorem data_url_ignores_image_format:
  "self_image_format (PDFProcessor_init jpeg_settings) = ''JPEG''
   \<and> OpenAIClient_init jpeg_settings = Some example_client
   \<and> fst (process_image example_client example_str [77, 97, 110] 1 (example_meta 3)
            (example_exchanges 0)) =
       [HttpPost ''https://api.example.com/v1/chat/completions''
          (JDict
             [(''model'', JStr ''gpt-4o''),
              (''messages'',
               JList
                 [JDict
                    [(''role'', JStr ''user''),
                     (''content'',
                      JList
                        [JDict [(''type'', JStr ''text''), (''text'', JStr instruction)],
                         JDict
                           [(''type'', JStr ''image_url''),
                            (''image_url'',
                             JDict [(''url'', JStr ''data:image/png;base64,TWFu'')])]])]]),
              (''max_tokens'', JInt 1000)])
          [(''Authorization'', ''Bearer sk-test''), (''Content-Type'', ''application/json'')]]"
  by (simp add: jpeg_settings_def example_settings_def PDFProcessor_init_def upper_def
      upper_char_def OpenAIClient_init_def example_client_def process_image_def
      request_payload_def request_headers_def b64_char_def Let_def)

section \<open>Calls in flight\<close>

lemma length_remove1_Suc: "x \<in> set xs \<Longrightarrow> length xs = Suc (length (remove1 x xs))"
  by (induction xs) auto

lemma step_slots:
  assumes "step a s = Some s'" and "slots s + length (in_flight s) = k"
  shows "slots s' + length (in_flight s') = k"
proof (cases a)
  case (Acquire i)
  with assms show ?thesis by (auto split: if_splits)
next
  case (Release i)
  with assms have i: "i \<in> set (in_flight s)"
    and s': "s' = s\<lparr>slots := slots s + 1, in_flight := remove1 i (in_flight s),
                     completed := completed s @ [i]\<rparr>"
    by (auto split: if_splits)
  from i have "length (in_flight s) = Suc (length (remove1 i (in_flight s)))"
    by (rule length_remove1_Suc)
  then show ?thesis using assms(2) s' by simp
qed

lemma run_slots:
  "run acts s = Some s' \<Longrightarrow> slots s + length (in_flight s) = k \<Longrightarrow>
   slots s' + length (in_flight s') = k"
proof (induction acts arbitrary: s)
  case Nil
  then show ?case by simp
next
  case (Cons a acts)
  then obtain s1 where s1: "step a s = Some s1" and r: "run acts s1 = Some s'"
    by (auto split: option.splits)
  from step_slots[OF s1 Cons.prems(2)] Cons.IH[OF r] show ?case by simp
qed

text \<open>
  Claim C4. With the client built from the settings, in every state the dispatch of a
  batch of \<open>m\<close> pages can reach, at most \<open>max_concurrent_requests\<close> calls are in flight, the
  free slots and the calls in flight add up to the limit, and at the limit no waiting task
  can enter: it waits until a call in flight releases its slot.
\<close>

theorem calls_in_flight_bounded:
  assumes "OpenAIClient_init settings = Some self"
      and "run acts (dispatch_start self m) = Some s"
  shows "int (length (in_flight s)) \<le> max_concurrent_requests settings
         \<and> slots s + length (in_flight s) = semaphore self
         \<and> (\<forall>i. int (length (in_flight s)) = max_concurrent_requests settings \<longrightarrow>
               step (Acquire i) s = None)"
proof -
  from assms(1) have n: "int (semaphore self) = max_concurrent_requests settings"
    by (auto simp: OpenAIClient_init_def split: if_splits)
  have "slots (dispatch_start self m) + length (in_flight (dispatch_start self m))
          = semaphore self"
    by (simp add: dispatch_start_def)
  from run_slots[OF assms(2) this]
  have inv: "slots s + length (in_flight s) = semaphore self" .
  with n show ?thesis by auto
qed

text \<open>
  Three pages under a limit of two: the third call starts after the second has finished,
  and cannot start before.
\<close>

theorem calls_in_flight_bounded_witness:
  "OpenAIClient_init example_settings = Some example_client
   \<and> run [Acquire 0, Acquire 1, Release 1, Acquire 2] (dispatch_start example_client 3)
       = Some \<lparr>slots = 0, waiting = [], in_flight = [0, 2], completed = [1]\<rparr>
   \<and> int (length (in_flight
         \<lparr>slots = 0, waiting = [], in_flight = [0, 2], completed = [1]\<rparr>))
       \<le> max_concurrent_requests example_settings
   \<and> run [Acquire 0, Acquire 1, Acquire 2] (dispatch_start example_client 3) = None"
proof -
  have a: "OpenAIClient_init example_settings = Some example_client"
    by (simp add: OpenAIClient_init_def example_settings_def example_client_def)
  have b: "run [Acquire 0, Acquire 1, Release 1, Acquire 2] (dispatch_start example_client 3)
       = Some \<lparr>slots = 0, waiting = [], in_flight = [0, 2], completed = [1]\<rparr>"
    by (simp add: dispatch_start_def example_client_def upt_rec)
  have c: "run [Acquire 0, Acquire 1, Acquire 2] (dispatch_start example_client 3) = None"
    by (simp add: dispatch_start_def example_client_def upt_rec)
  from calls_in_flight_bounded[OF a b] a b c show ?thesis by simp
qed


section \<open>The request that reaches the response\<close>

lemma read_response_Inr:
  assumes "read_response str meta status body t = Inr (resp, um)"
  shows "resp = body \<and> (\<exists>kvs. body = JDict kvs) \<and> status = 200"
  using assms
  by (cases body)
     (auto simp: read_response_def split: if_splits sum.splits option.splits)

lemma outcome_of_dict: "\<exists>kvs. fst (snd (outcome_of self str xch page)) = JDict kvs"
proof (cases page)
  case (fields page_num image_data meta)
  show ?thesis
  proof (cases "snd (process_image self str image_data page_num meta xch)")
    case (Inl e)
    with fields show ?thesis by (simp add: outcome_of_def)
  next
    case (Inr r)
    obtain resp um where r: "r = (resp, um)" by (cases r)
    from Inr r obtain status body t where
      "read_response str meta status body t = Inr (resp, um)"
      by (auto simp: process_image_def Let_def split: exchange.splits sum.splits raised.splits)
    from read_response_Inr[OF this] Inr r fields show ?thesis
      by (auto simp: outcome_of_def)
  qed
qed

lemma collect_total:
  "list_all (\<lambda>x. 1 \<le> fst x \<and> (\<exists>kvs. fst (snd x) = JDict kvs)) xs \<Longrightarrow>
   \<exists>r. collect xs rs es n = Inr r"
proof (induction xs arbitrary: rs es n)
  case Nil
  then show ?case by simp
next
  case (Cons x xs)
  obtain pn out m e where x: "x = (pn, out, m, e)" by (cases x) auto
  with Cons.prems obtain kvs where pn: "1 \<le> pn" and out: "out = JDict kvs"
    and rest: "list_all (\<lambda>x. 1 \<le> fst x \<and> (\<exists>kvs. fst (snd x) = JDict kvs)) xs"
    by auto
  from Cons.IH[OF rest] x pn out show ?case
    by (auto simp: PageResult_init_def split: option.splits)
qed

text \<open>
  A request for a file named \<open>*.pdf\<close> within the size limit, whose payload opens to a
  document with at least one page, all of which render, returns a response once every task
  has completed: it opens the payload twice, renders every page, posts one request per
  page, and no validation of a page result fails.
\<close>

theorem process_pdf_returns_report:
  assumes "filename req = Some name" and "endswith (lower name) ''.pdf''"
      and "int (length (upload req)) \<le> max_file_size settings"
      and "fitz_open w (upload req) = Inr doc" and "doc \<noteq> []"
      and "list_all (\<lambda>p. \<not> isl (render pp p)) doc"
      and "sort (completion w) = [0..<page_count doc]"
  shows "\<exists>rep. process_pdf settings w req pp client =
           Some ([FitzOpen (upload req), FitzOpen (upload req)]
                   @ map RenderPage [0..<page_count doc]
                   @ map (post_of client) (map (page_record pp doc) [0..<page_count doc]),
                 Inr rep)"
proof -
  let ?pages = "map (page_record pp doc) [0..<page_count doc]"
  let ?outs = "map (\<lambda>i. outcome_of client (py_str w) (exchanges w i) (?pages ! i))
                 [0..<length ?pages]"
  have st: "process_pdf_stream settings pp (fitz_open w) (upload req) =
             ([FitzOpen (upload req), FitzOpen (upload req)] @ map RenderPage [0..<page_count doc],
              Inr ?pages)"
    using process_pdf_stream_ok[of "upload req" settings "fitz_open w" doc pp] assms by simp
  have ne: "?pages \<noteq> []" using assms(5) by (simp add: page_count_def)
  have "sort (completion w) = [0..<length ?pages]" using assms(7) by simp
  from process_batch_Some[OF sort_upt_covers[OF this], of client "py_str w" "exchanges w"]
  have b: "process_batch client (py_str w) (exchanges w) (completion w) ?pages =
             Some (map (post_of client) ?pages, ?outs)" .
  have "list_all (\<lambda>x. 1 \<le> fst x \<and> (\<exists>kvs. fst (snd x) = JDict kvs)) ?outs"
    unfolding list_all_iff
  proof
    fix x assume "x \<in> set ?outs"
    then obtain i where i: "i < page_count doc"
      and x: "x = outcome_of client (py_str w) (exchanges w i) (?pages ! i)"
      by auto
    from i have "fst (?pages ! i) = int i + 1"
      by (simp add: page_record_def Let_def)
    with x outcome_of_page_num[of client "py_str w" "exchanges w i" "?pages ! i"]
      outcome_of_dict[of client "py_str w" "exchanges w i" "?pages ! i"]
    show "1 \<le> fst x \<and> (\<exists>kvs. fst (snd x) = JDict kvs)" by simp
  qed
  from collect_total[OF this, of "[]" "[]" 0] obtain rs es n where
    c: "collect ?outs [] [] 0 = Inr (rs, es, n)" by (metis prod_cases3)
  have "\<exists>rep. process_pdf_try settings w req pp client =
           Some ([FitzOpen (upload req), FitzOpen (upload req)]
                   @ map RenderPage [0..<page_count doc]
                   @ map (post_of client) ?pages,
                 Inr rep)"
    using assms(1,2) st ne b c by (simp add: process_pdf_try_def)
  then show ?thesis by (auto simp: process_pdf_def)
qed

text \<open>The three-page upload of the example.\<close>

theorem process_pdf_returns_report_witness:
  "filename (example_upload [37, 80, 68, 70]) = Some ''Invoice.PDF''
   \<and> endswith (lower ''Invoice.PDF'') ''.pdf''
   \<and> int (length (upload (example_upload [37, 80, 68, 70]))) \<le> max_file_size example_settings
   \<and> fitz_open example_world (upload (example_upload [37, 80, 68, 70])) = Inr three_pages
   \<and> three_pages \<noteq> []
   \<and> list_all (\<lambda>p. \<not> isl (render example_processor p)) three_pages
   \<and> sort (completion example_world) = [0..<page_count three_pages]
   \<and> (\<exists>rep. process_pdf example_settings example_world (example_upload [37, 80, 68, 70])
                example_processor example_client =
           Some ([FitzOpen (upload (example_upload [37, 80, 68, 70])),
                  FitzOpen (upload (example_upload [37, 80, 68, 70]))]
                   @ map RenderPage [0..<page_count three_pages]
                   @ map (post_of example_client)
                       (map (page_record example_processor three_pages)
                          [0..<page_count three_pages]),
                 Inr rep))"
proof -
  have 1: "filename (example_upload [37, 80, 68, 70]) = Some ''Invoice.PDF''"
    by (simp add: example_upload_def)
  have 2: "endswith (lower ''Invoice.PDF'') ''.pdf''"
    by (simp add: endswith_def lower_def lower_char_def)
  have 3: "int (length (upload (example_upload [37, 80, 68, 70])))
             \<le> max_file_size example_settings"
    by (simp add: example_upload_def example_settings_def)
  have 4: "fitz_open example_world (upload (example_upload [37, 80, 68, 70])) = Inr three_pages"
    by (simp add: example_upload_def example_world_def example_library_def)
  have 5: "three_pages \<noteq> []"
    by (simp add: three_pages_def)
  have 6: "list_all (\<lambda>p. \<not> isl (render example_processor p)) three_pages"
    by (simp add: example_defs)
  have 7: "sort (completion example_world) = [0..<page_count three_pages]"
    by (simp add: example_world_def page_count_def three_pages_def upt_rec)
  from process_pdf_returns_report[OF 1 2 3 4 5 6 7, of example_client] 1 2 3 4 5 6 7
  show ?thesis by blast
qed

section \<open>From the semaphore to the completion order\<close>

lemma step_tasks:
  assumes "step a s = Some s'"
  shows "mset (waiting s') + mset (in_flight s') + mset (completed s') =
         mset (waiting s) + mset (in_flight s) + mset (completed s)"
proof (cases a)
  case (Acquire i)
  with assms show ?thesis by (auto split: if_splits)
next
  case (Release i)
  with assms show ?thesis by (auto split: if_splits)
qed

lemma run_tasks:
  "run acts s = Some s' \<Longrightarrow>
   mset (waiting s') + mset (in_flight s') + mset (completed s') =
   mset (waiting s) + mset (in_flight s) + mset (completed s)"
proof (induction acts arbitrary: s)
  case Nil
  then show ?case by simp
next
  case (Cons a acts)
  then obtain s1 where s1: "step a s = Some s1" and r: "run acts s1 = Some s'"
    by (auto split: option.splits)
  from step_tasks[OF s1] Cons.IH[OF r] show ?case by simp
qed

text \<open>
  When the dispatch of \<open>m\<close> tasks has run until no task waits and none is in flight, the
  order in which the tasks completed lists every task once, and \<open>gather\<close> returns the
  results of the \<open>m\<close> tasks in task order.
\<close>

theorem finished_dispatch_completes_every_task:
  assumes "run acts (dispatch_start self m) = Some s"
      and "waiting s = []" and "in_flight s = []"
      and "length tasks = m"
  shows "sort (completed s) = [0..<m] \<and> gather (completed s) tasks = Some tasks"
proof -
  from run_tasks[OF assms(1)] assms(2,3)
  have m: "mset (completed s) = mset [0..<m]"
    by (simp add: dispatch_start_def)
  then have "sort (completed s) = [0..<m]"
    by (intro properties_for_sort) simp_all
  moreover from m have "set (completed s) = {0..<m}"
    by (metis set_mset_mset set_upt)
  with assms(4) have "{0..<length tasks} \<subseteq> set (completed s)" by simp
  from gather_complete[OF this] have "gather (completed s) tasks = Some tasks" .
  ultimately show ?thesis by simp
qed

text \<open>Three tasks under a limit of two, completing in the order 1, 2, 0.\<close>

theorem finished_dispatch_completes_every_task_witness:
  "run [Acquire 0, Acquire 1, Release 1, Acquire 2, Release 2, Release 0]
     (dispatch_start example_client 3)
     = Some \<lparr>slots = 2, waiting = [], in_flight = [], completed = [1, 2, 0]\<rparr>
   \<and> length example_outs = 3
   \<and> sort [1, 2, 0] = [0..<3]
   \<and> gather [1, 2, 0] example_outs = Some example_outs"
proof -
  have r: "run [Acquire 0, Acquire 1, Release 1, Acquire 2, Release 2, Release 0]
     (dispatch_start example_client 3)
     = Some \<lparr>slots = 2, waiting = [], in_flight = [], completed = [1, 2, 0]\<rparr>"
    by (simp add: dispatch_start_def example_client_def upt_rec)
  have l: "length example_outs = 3"
    by (simp add: example_outs_def)
  from finished_dispatch_completes_every_task[OF r _ _ l] r l show ?thesis by simp
qed

end
